theory Spec2Isabelle
  imports Main
begin

section \<open>Strings, integers and paths as the Python code uses them\<close>

text \<open>
  A Python \<open>str\<close> is modelled as a \<open>string\<close>; one \<open>char\<close> stands for one code point
  below 256. Python's unbounded \<open>int\<close> is \<open>int\<close>.
\<close>

text \<open>The regular expression class \<open>\w\<close> of Python's \<open>re\<close> on \<open>str\<close> patterns,
  restricted to the code points below 256.\<close>

definition is_word_char :: "char \<Rightarrow> bool" where
  "is_word_char c =
     (let n = (of_char c :: nat) in
        (48 \<le> n \<and> n \<le> 57) \<or> (65 \<le> n \<and> n \<le> 90) \<or> n = 95 \<or> (97 \<le> n \<and> n \<le> 122) \<or>
        n = 170 \<or> n = 178 \<or> n = 179 \<or> n = 181 \<or> n = 185 \<or> n = 186 \<or>
        (188 \<le> n \<and> n \<le> 190) \<or> (192 \<le> n \<and> n \<le> 214) \<or>
        (216 \<le> n \<and> n \<le> 246) \<or> (248 \<le> n \<and> n \<le> 255))"

text \<open>\<^verbatim>\<open>re.sub(r"[^\w\-_]", "_", s)\<close>\<close>

definition re_sub_unsafe :: "string \<Rightarrow> string" where
  "re_sub_unsafe s =
     map (\<lambda>c. if is_word_char c \<or> c = CHR ''-'' \<or> c = CHR ''_'' then c else CHR ''_'') s"

text \<open>\<^verbatim>\<open>s.strip("_")\<close>\<close>

definition strip_underscore :: "string \<Rightarrow> string" where
  "strip_underscore s =
     rev (dropWhile (\<lambda>c. c = CHR ''_'') (rev (dropWhile (\<lambda>c. c = CHR ''_'') s)))"

text \<open>\<^verbatim>\<open>re.sub(r"[^\w\-_]", "_", member.username).strip("_")[:64]\<close>\<close>

definition safe_name :: "string \<Rightarrow> string" where
  "safe_name u = take 64 (strip_underscore (re_sub_unsafe u))"

text \<open>\<open>str(n)\<close> for an integer: decimal digits, a leading minus sign for a negative one.\<close>

definition digit_char :: "nat \<Rightarrow> char" where
  "digit_char d = char_of (48 + d)"

function str_nat :: "nat \<Rightarrow> string" where
  "str_nat n = (if n < 10 then [digit_char n] else str_nat (n div 10) @ [digit_char (n mod 10)])"
  by pat_completeness auto
termination
  by (relation "measure (\<lambda>n. n)") auto

declare str_nat.simps [simp del]

definition str_int :: "int \<Rightarrow> string" where
  "str_int i = (if i < 0 then CHR ''-'' # str_nat (nat (- i)) else str_nat (nat i))"

text \<open>
  \<open>int(s)\<close> on a \<open>str\<close>: white space around the number is dropped, one sign is allowed,
  then at least one decimal digit and nothing else; anything else raises \<open>ValueError\<close>
  (\<open>None\<close> here). Python also accepts single underscores between digits; the only
  caller passes a piece of \<open>split("_")\<close>, which holds none.
\<close>

definition is_int_space :: "char \<Rightarrow> bool" where
  "is_int_space c = ((of_char c :: nat) \<in> {9, 10, 11, 12, 13, 32, 133, 160})"

definition is_digit :: "char \<Rightarrow> bool" where
  "is_digit c = (48 \<le> (of_char c :: nat) \<and> (of_char c :: nat) \<le> 57)"

definition digits_val :: "string \<Rightarrow> nat" where
  "digits_val ds = foldl (\<lambda>a c. 10 * a + (of_char c - 48)) 0 ds"

definition py_nat :: "string \<Rightarrow> nat option" where
  "py_nat ds = (if ds \<noteq> [] \<and> list_all is_digit ds then Some (digits_val ds) else None)"

definition strip_space :: "string \<Rightarrow> string" where
  "strip_space s = rev (dropWhile is_int_space (rev (dropWhile is_int_space s)))"

definition py_int :: "string \<Rightarrow> int option" where
  "py_int s =
     (case strip_space s of
        [] \<Rightarrow> None
      | c # r \<Rightarrow>
          if c = CHR ''-'' then map_option (\<lambda>n. - int n) (py_nat r)
          else if c = CHR ''+'' then map_option int (py_nat r)
          else map_option int (py_nat (c # r)))"

text \<open>\<^verbatim>\<open>s.split("_")\<close>: the pieces between underscores, empty pieces kept.\<close>

fun split_underscore :: "string \<Rightarrow> string list" where
  "split_underscore [] = [[]]"
| "split_underscore (c # cs) =
     (if c = CHR ''_'' then [] # split_underscore cs
      else (case split_underscore cs of
              [] \<Rightarrow> [[c]]
            | p # ps \<Rightarrow> (c # p) # ps))"

text \<open>
  A \<open>pathlib.Path\<close> is the list of its components. The \<open>/\<close> operator is used by the code
  only with segments that hold no separator (a sanitised name, a formatted time stamp, a
  uuid); an empty segment and \<open>"."\<close> add no component.
\<close>

type_synonym path = "string list"

definition path_div :: "path \<Rightarrow> string \<Rightarrow> path" where
  "path_div p seg = (if seg = [] \<or> seg = ''.'' then p else p @ [seg])"

text \<open>\<open>str(path)\<close>: the components joined by \<open>/\<close>.\<close>

fun path_str :: "path \<Rightarrow> string" where
  "path_str [] = ''.''"
| "path_str [c] = c"
| "path_str (c # cs) = c @ ''/'' @ path_str cs"

text \<open>
  \<open>PurePath.suffix\<close> of a file name: from the last dot on, unless that dot is the first
  or the last character.
\<close>

definition suffix_of :: "string \<Rightarrow> string" where
  "suffix_of name =
     (if CHR ''.'' \<in> set name then
        (let k = length (takeWhile (\<lambda>c. c \<noteq> CHR ''.'') (rev name));
             i = length name - k - 1
         in if 0 < i \<and> i < length name - 1 then drop i name else [])
      else [])"

text \<open>
  \<open>path.with_suffix(suffix)\<close>: the last component with its suffix replaced (or the new
  one appended when it has none). Python raises \<open>ValueError\<close> on a path with an empty
  name; the code calls it on a path whose last component holds a \<open>-\<close>.
\<close>

definition with_suffix :: "path \<Rightarrow> string \<Rightarrow> path" where
  "with_suffix p suffix =
     (if p = [] then p
      else butlast p @ [take (length (last p) - length (suffix_of (last p))) (last p) @ suffix])"

text \<open>
  \<open>datetime.now(timezone.utc).strftime("%Y-%m-%d-%H-%M")\<close>: the fields of the clock
  reading, two digits each after the year.
\<close>

record datetime =
  dt_year :: nat
  dt_month :: nat
  dt_day :: nat
  dt_hour :: nat
  dt_minute :: nat

definition pad2 :: "nat \<Rightarrow> string" where
  "pad2 n = (if n < 10 then CHR ''0'' # str_nat n else str_nat n)"

definition strftime :: "datetime \<Rightarrow> string" where
  "strftime d =
     str_nat (dt_year d) @ ''-'' @ pad2 (dt_month d) @ ''-'' @ pad2 (dt_day d) @ ''-'' @
     pad2 (dt_hour d) @ ''-'' @ pad2 (dt_minute d)"

section \<open>Configuration and data\<close>

text \<open>\<open>Config.AUDIOS_DIR\<close> and \<open>Config.QUEUE_CONFIGURATION\<close> (the queue names come from
  the environment).\<close>

definition AUDIOS_DIR :: path where
  "AUDIOS_DIR = [''audio'']"

record config =
  AudioQueue :: string
  RejectedAudioQueue :: string
  ProcessedAudioQueue :: string

text \<open>\<open>Config.MESSAGE_FILES\<close>: the three cues, by key.\<close>

datatype cue = CueStart | CueStop | CueError

datatype error = FileNotFoundError | JSONDecodeError | KeyError | ValueError

record member =
  member_id :: int
  username :: string
  is_bot :: bool
  dm_open :: bool

record voice_channel =
  vc_id :: int
  vc_guild_id :: int
  vc_members :: "member list"

text \<open>
  An \<open>ActiveVoiceState\<close>: the id of its channel, whether it is connected, whether the
  recorder runs, and \<open>recorder.output\<close>, the captured artifact of each participant (a
  dict: in insertion order, keys distinct).
\<close>

record voice_state =
  vs_channel_id :: int
  vs_connected :: bool
  vs_recording :: bool
  rec_output :: "(int \<times> path) list"

text \<open>The calls made on the voice layer, in order, each with the channel id of the
  voice state it was made on.\<close>

datatype voice_call =
    Connect
  | StartRecording
  | StopRecording
  | Play cue
  | PlayNoWait cue
  | Disconnect

text \<open>The JSON object published for one segment.\<close>

record segment =
  seg_id :: string
  seg_path :: string
  seg_userId :: int
  seg_user :: string
  seg_channelId :: int
  seg_guildId :: int

text \<open>
  The texts the bot sends, by meaning:
  \<^item> \<open>MustBeInVoice\<close>: \<^verbatim>\<open>Debes estar en un canal de voz.\<close>
  \<^item> \<open>AlreadyActive\<close>: \<^verbatim>\<open>Ya hay una grabacion activa.\<close>
  \<^item> \<open>Started\<close>: \<^verbatim>\<open>Grabacion iniciada!\<close>
  \<^item> \<open>NoActive\<close>: \<^verbatim>\<open>No hay grabaciones activas.\<close>
  \<^item> \<open>Stopped n\<close>: \<^verbatim>\<open>Grabacion detenida. Procesadas n grabaciones\<close>
  \<^item> \<open>StopError\<close>: \<^verbatim>\<open>Error al detener la grabacion\<close>
  \<^item> \<open>ProcessError\<close>: \<^verbatim>\<open>Error al procesar las grabaciones\<close>
  \<^item> \<open>CannotAnswer\<close>: \<^verbatim>\<open>No puedes responder a esta solicitud.\<close>
  \<^item> \<open>PreferenceSaved\<close>: \<^verbatim>\<open>Tu preferencia ha sido guardada.\<close>
  \<^item> \<open>AllLeft\<close>: \<^verbatim>\<open>Todos los miembros han abandonado el canal.\<close>

  What the bot sends to Discord: a reply to an interaction (with its ephemeral flag), a
  message in a text or voice channel, the consent request as a direct message to a member
  or in a channel (the two buttons carry the member's id in their \<open>custom_id\<close>).
\<close>

datatype msg_text =
    MustBeInVoice
  | AlreadyActive
  | Started
  | NoActive
  | Stopped nat
  | StopError
  | ProcessError
  | CannotAnswer
  | PreferenceSaved
  | AllLeft

datatype notice =
    Reply msg_text bool
  | ChannelSend int msg_text
  | ConsentDM int
  | ConsentChannel int int

type_synonym consent = "string \<rightharpoonup> bool"

text \<open>
  The state the handlers work on: the registry of \<open>VoiceStateManager\<close>, the consent file
  (\<open>None\<close> when it does not exist), the files on disk, the messages published on Redis
  (channel name and payload), the notices sent, the calls on the voice layer, whether the
  rotation task runs, the user id of the bot itself, and the two outside sources the code
  reads: \<open>uuid.uuid4()\<close> and the clock, each as the sequence of values it returns with
  the number of reads so far.
\<close>

record world =
  active_recordings :: "int \<rightharpoonup> voice_state"
  consent_file :: "consent option"
  files :: "path \<rightharpoonup> string"
  published :: "(string \<times> segment) list"
  notices :: "notice list"
  voice_log :: "(int \<times> voice_call) list"
  task_running :: bool
  bot_user_id :: int
  uuid_src :: "nat \<Rightarrow> string"
  uuid_reads :: nat
  clock_src :: "nat \<Rightarrow> datetime"
  clock_reads :: nat

text \<open>A \<open>SlashContext\<close>: the guild, its member cache, the text channel of the command
  and the voice channel of the author, if any.\<close>

record slash_ctx =
  ctx_guild_id :: int
  ctx_members :: "int \<rightharpoonup> member"
  ctx_channel :: int
  ctx_author_voice :: "voice_channel option"

section \<open>State management\<close>

text \<open>\<open>VoiceStateManager.add\<close>, \<open>remove\<close> and \<open>get\<close>.\<close>

definition add :: "int \<Rightarrow> voice_state \<Rightarrow> world \<Rightarrow> world" where
  "add guild_id voice_state s =
     s\<lparr>active_recordings := (active_recordings s)(guild_id \<mapsto> voice_state)\<rparr>"

definition remove :: "int \<Rightarrow> world \<Rightarrow> voice_state option \<times> world" where
  "remove guild_id s =
     (active_recordings s guild_id,
      s\<lparr>active_recordings := (active_recordings s)(guild_id := None)\<rparr>)"

definition get :: "int \<Rightarrow> world \<Rightarrow> voice_state option" where
  "get guild_id s = active_recordings s guild_id"

text \<open>\<open>ConsentManager.load\<close> (an absent or unreadable file reads as the empty dict) and
  \<open>save\<close>.\<close>

definition load :: "world \<Rightarrow> consent" where
  "load s = (case consent_file s of None \<Rightarrow> Map.empty | Some data \<Rightarrow> data)"

definition save :: "consent \<Rightarrow> world \<Rightarrow> world" where
  "save data s = s\<lparr>consent_file := Some data\<rparr>"

section \<open>Processing one recording\<close>

text \<open>\<open>consent_data.get(str(user_id), False)\<close>\<close>

definition granted :: "consent \<Rightarrow> int \<Rightarrow> bool" where
  "granted consent_data user_id =
     (case consent_data (str_int user_id) of None \<Rightarrow> False | Some g \<Rightarrow> g)"

text \<open>\<open>file_path.unlink(missing_ok=True)\<close>\<close>

definition unlink :: "path \<Rightarrow> world \<Rightarrow> world" where
  "unlink p s = s\<lparr>files := (files s)(p := None)\<rparr>"

text \<open>
  \<open>shutil.move(src, dst)\<close>: the content leaves \<open>src\<close> and sits at \<open>dst\<close>; a missing
  source raises. Directories are not part of the file map.
\<close>

definition move :: "path \<Rightarrow> path \<Rightarrow> world \<Rightarrow> error + world" where
  "move src dst s =
     (case files s src of
        None \<Rightarrow> Inl FileNotFoundError
      | Some data \<Rightarrow> Inr (s\<lparr>files := ((files s)(src := None))(dst \<mapsto> data)\<rparr>))"

definition publish :: "string \<Rightarrow> segment \<Rightarrow> world \<Rightarrow> world" where
  "publish queue_name body s = s\<lparr>published := published s @ [(queue_name, body)]\<rparr>"

text \<open>
  \<open>process_user_recording\<close>. The result is the returned path (\<open>None\<close> for no segment)
  or the exception raised, with the state left behind. The clock is read before
  \<open>uuid4\<close>, as in the code; \<open>user_dir.mkdir(parents=True, exist_ok=True)\<close> between the
  two leaves the file map as it is.
\<close>

definition process_user_recording ::
  "config \<Rightarrow> slash_ctx \<Rightarrow> int \<Rightarrow> path \<Rightarrow> consent \<Rightarrow> int \<Rightarrow> world \<Rightarrow> (error + path option) \<times> world"
where
  "process_user_recording cfg ctx user_id file_path consent_data channel_id s =
     (if \<not> granted consent_data user_id then (Inr None, unlink file_path s)
      else
        (case ctx_members ctx user_id of
           None \<Rightarrow> (Inr None, s)
         | Some mem \<Rightarrow>
             if is_bot mem then (Inr None, s)
             else
               (let safe = safe_name (username mem);
                    timestamp = strftime (clock_src s (clock_reads s));
                    s1 = s\<lparr>clock_reads := Suc (clock_reads s)\<rparr>;
                    user_dir = path_div (path_div AUDIOS_DIR safe) timestamp;
                    identifier = uuid_src s1 (uuid_reads s1);
                    s2 = s1\<lparr>uuid_reads := Suc (uuid_reads s1)\<rparr>;
                    dest_path = with_suffix (path_div user_dir (identifier @ ''-'' @ timestamp)) ''.wav''
                in (case move file_path dest_path s2 of
                      Inl e \<Rightarrow> (Inl e, s2)
                    | Inr s3 \<Rightarrow>
                        (Inr (Some dest_path),
                         publish (AudioQueue cfg)
                           \<lparr>seg_id = identifier, seg_path = path_str dest_path,
                            seg_userId = user_id, seg_user = username mem,
                            seg_channelId = channel_id, seg_guildId = ctx_guild_id ctx\<rparr> s3)))))"

text \<open>
  The list of \<open>process_user_recording\<close> coroutines over \<open>recorder.output.items()\<close>, run
  by \<open>asyncio.gather\<close>: each runs, in the order of the dict, up to its only suspension
  (the publish), so the effects on the files happen in that order; a task that raises
  does not keep the others from running.
\<close>

fun run_tasks ::
  "config \<Rightarrow> slash_ctx \<Rightarrow> consent \<Rightarrow> int \<Rightarrow> (int \<times> path) list \<Rightarrow> world \<Rightarrow>
     (error + path option) list \<times> world"
where
  "run_tasks cfg ctx consent_data channel_id [] s = ([], s)"
| "run_tasks cfg ctx consent_data channel_id ((user_id, file_path) # rest) s =
     (let (r, s1) = process_user_recording cfg ctx user_id file_path consent_data channel_id s;
          (rs, s2) = run_tasks cfg ctx consent_data channel_id rest s1
      in (r # rs, s2))"

text \<open>\<open>await asyncio.gather(*tasks)\<close>: the list of results, or the first exception.\<close>

fun gather :: "(error + 'a) list \<Rightarrow> error + 'a list" where
  "gather [] = Inr []"
| "gather (Inl e # rs) = Inl e"
| "gather (Inr v # rs) = (case gather rs of Inl e \<Rightarrow> Inl e | Inr vs \<Rightarrow> Inr (v # vs))"

text \<open>\<open>sum(1 for t in recording_paths if t is not None)\<close>\<close>

definition successful :: "path option list \<Rightarrow> nat" where
  "successful recording_paths = length (filter (\<lambda>t. t \<noteq> None) recording_paths)"

section \<open>The voice layer\<close>

text \<open>
  What a call does to the voice state it is made on: \<open>start_recording\<close> installs a new
  recorder, whose output is empty until the voice layer fills it. The calls themselves
  are taken to succeed.
\<close>

fun vs_effect :: "voice_call \<Rightarrow> voice_state \<Rightarrow> voice_state" where
  "vs_effect Connect vs = vs\<lparr>vs_connected := True\<rparr>"
| "vs_effect StartRecording vs = vs\<lparr>vs_recording := True, rec_output := []\<rparr>"
| "vs_effect StopRecording vs = vs\<lparr>vs_recording := False\<rparr>"
| "vs_effect (Play c) vs = vs"
| "vs_effect (PlayNoWait c) vs = vs"
| "vs_effect Disconnect vs = vs\<lparr>vs_connected := False\<rparr>"

definition voice :: "voice_call \<Rightarrow> voice_state \<Rightarrow> world \<Rightarrow> voice_state \<times> world" where
  "voice c vs s = (vs_effect c vs, s\<lparr>voice_log := voice_log s @ [(vs_channel_id vs, c)]\<rparr>)"

text \<open>\<open>channel.connect()\<close>: a new voice state on the channel.\<close>

definition connect :: "voice_channel \<Rightarrow> world \<Rightarrow> voice_state \<times> world" where
  "connect channel s =
     voice Connect
       \<lparr>vs_channel_id = vc_id channel, vs_connected = False, vs_recording = False,
        rec_output = []\<rparr> s"

text \<open>
  A voice state is an object shared with the registry: after a handler has changed the
  one it got from \<open>get\<close>, the registry holds the changed object.
\<close>

definition store_back :: "int \<Rightarrow> voice_state \<Rightarrow> world \<Rightarrow> world" where
  "store_back guild_id vs s =
     s\<lparr>active_recordings := (active_recordings s)(guild_id \<mapsto> vs)\<rparr>"

definition send :: "notice \<Rightarrow> world \<Rightarrow> world" where
  "send n s = s\<lparr>notices := notices s @ [n]\<rparr>"

section \<open>Handlers\<close>

text \<open>\<open>request_consent\<close>: a direct message, or the channel when that fails.\<close>

definition request_consent :: "int \<Rightarrow> member \<Rightarrow> world \<Rightarrow> world" where
  "request_consent channel mem s =
     (if dm_open mem then send (ConsentDM (member_id mem)) s
      else send (ConsentChannel channel (member_id mem)) s)"

text \<open>A \<open>ComponentContext\<close>: the \<open>custom_id\<close> of the button and the id of the user who
  pressed it.\<close>

record component_ctx =
  custom_id :: string
  cc_user_id :: int

text \<open>
  \<open>handle_consent_response\<close>. Unpacking \<open>custom_id.split("_")\<close> into three names
  raises \<open>ValueError\<close> unless there are exactly three pieces, and so does \<open>int\<close> on a
  piece that is no number.
\<close>

definition handle_consent_response :: "component_ctx \<Rightarrow> world \<Rightarrow> error + world" where
  "handle_consent_response ctx s =
     (case split_underscore (custom_id ctx) of
        [_, action, user_id] \<Rightarrow>
          (case py_int user_id of
             None \<Rightarrow> Inl ValueError
           | Some n \<Rightarrow>
               if cc_user_id ctx \<noteq> n then Inr (send (Reply CannotAnswer True) s)
               else
                 (let consent_data = load s;
                      consent_data = consent_data(user_id \<mapsto> (action = ''allow''));
                      s1 = save consent_data s
                  in Inr (send (Reply PreferenceSaved True) s1)))
      | _ \<Rightarrow> Inl ValueError)"

text \<open>
  \<open>scheduled_transcription_task\<close>, one firing of the interval trigger.
\<close>

definition scheduled_transcription_task :: "config \<Rightarrow> slash_ctx \<Rightarrow> world \<Rightarrow> world" where
  "scheduled_transcription_task cfg ctx s =
     (case get (ctx_guild_id ctx) s of
        None \<Rightarrow> s
      | Some voice_state \<Rightarrow>
          (let (vs1, s1) = voice StopRecording voice_state s;
               consent_data = load s1;
               channel_id = vs_channel_id vs1;
               (recording_paths, s2) =
                  run_tasks cfg ctx consent_data channel_id (rec_output vs1) s1
           in (case gather recording_paths of
                 Inr paths \<Rightarrow>
                   (let (vs3, s3) = voice StartRecording vs1 s2
                    in store_back (ctx_guild_id ctx) vs3 s3)
               | Inl e \<Rightarrow>
                   (let s3 = send (Reply ProcessError True) s2
                    in if vs_connected vs1 then
                         (let (vs4, s4) = voice (Play CueError) vs1 s3;
                              (vs5, s5) = voice Disconnect vs4 s4
                          in store_back (ctx_guild_id ctx) vs5 s5)
                       else store_back (ctx_guild_id ctx) vs1 s3))))"

text \<open>
  \<open>start_recording\<close>. The \<open>try\<close> block guards calls on the voice layer and on Discord
  only, which are taken to succeed.
\<close>

definition start_recording :: "slash_ctx \<Rightarrow> world \<Rightarrow> world" where
  "start_recording ctx s =
     (case ctx_author_voice ctx of
        None \<Rightarrow> send (Reply MustBeInVoice True) s
      | Some channel \<Rightarrow>
          if get (ctx_guild_id ctx) s \<noteq> None then send (Reply AlreadyActive True) s
          else
            (let (vs1, s1) = connect channel s;
                 (vs2, s2) = voice StartRecording vs1 s1;
                 s3 = add (ctx_guild_id ctx) vs2 s2;
                 (vs4, s4) = voice (PlayNoWait CueStart) vs2 s3;
                 consent_data = load s4;
                 members_needing_consent =
                   filter (\<lambda>m. \<not> is_bot m \<and> consent_data (str_int (member_id m)) = None)
                     (vc_members channel);
                 s5 = fold (request_consent (ctx_channel ctx)) members_needing_consent s4;
                 s6 = send (Reply Started False) s5
             in s6\<lparr>task_running := True\<rparr>))"

text \<open>\<open>stop_recording\<close>\<close>

definition stop_recording :: "config \<Rightarrow> slash_ctx \<Rightarrow> world \<Rightarrow> world" where
  "stop_recording cfg ctx s =
     (case remove (ctx_guild_id ctx) s of
        (None, s0) \<Rightarrow> send (Reply NoActive True) s0
      | (Some voice_state, s0) \<Rightarrow>
          (let s1 = s0\<lparr>task_running := False\<rparr>;
               (vs2, s2) = voice StopRecording voice_state s1;
               (vs3, s3) = voice (PlayNoWait CueStop) vs2 s2;
               consent_data = load s3;
               (recording_paths, s4) =
                  run_tasks cfg ctx consent_data (vs_channel_id vs3) (rec_output vs3) s3
           in (case gather recording_paths of
                 Inr paths \<Rightarrow>
                   (let s5 = send (Reply (Stopped (successful paths)) False) s4;
                        (vs6, s6) = voice Disconnect vs3 s5
                    in s6)
               | Inl e \<Rightarrow>
                   (let s5 = send (Reply StopError True) s4
                    in if vs_connected vs3 then
                         (let (vs6, s6) = voice (Play CueError) vs3 s5;
                              (vs7, s7) = voice Disconnect vs6 s6
                          in s7)
                       else s5))))"

text \<open>
  A message of the pub/sub stream: its type, its channel, and what \<open>json.loads\<close> makes
  of its data: nothing (\<open>Unparsable\<close>), or a body with the value of its \<open>guildId\<close> key,
  if it has one.
\<close>

datatype payload = Unparsable | Body "int option"

record message =
  msg_type :: string
  msg_channel :: string
  msg_data :: payload

text \<open>
  The loop of \<open>on_ready\<close> over the messages received so far, from a given value of
  \<open>counter\<close>: the exception that ends it, or the counter and the state after the last
  message. \<open>continue\<close> goes to the next message without reaching \<open>counter += 1\<close>.
\<close>

fun on_ready_loop :: "config \<Rightarrow> nat \<Rightarrow> message list \<Rightarrow> world \<Rightarrow> error + nat \<times> world" where
  "on_ready_loop cfg counter [] s = Inr (counter, s)"
| "on_ready_loop cfg counter (m # ms) s =
     (if msg_type m \<noteq> ''message'' then on_ready_loop cfg counter ms s
      else
        (case msg_data m of
           Unparsable \<Rightarrow> Inl JSONDecodeError
         | Body guildId \<Rightarrow>
             if msg_channel m = RejectedAudioQueue cfg then
               (if counter \<noteq> 7 then on_ready_loop cfg counter ms s
                else
                  (case guildId of
                     None \<Rightarrow> Inl KeyError
                   | Some g \<Rightarrow>
                       (case get g s of
                          None \<Rightarrow> on_ready_loop cfg (counter + 1) ms s
                        | Some voice_state \<Rightarrow>
                            if \<not> vs_connected voice_state then on_ready_loop cfg counter ms s
                            else
                              (let (vs1, s1) = voice (Play CueError) voice_state s
                               in on_ready_loop cfg (0 + 1) ms s1))))
             else on_ready_loop cfg (counter + 1) ms s))"

definition on_ready :: "config \<Rightarrow> message list \<Rightarrow> world \<Rightarrow> error + nat \<times> world" where
  "on_ready cfg ms s = on_ready_loop cfg 0 ms s"

text \<open>A voice presence event: who joined or left, and the voice channel with its
  members.\<close>

record voice_event =
  ev_author :: member
  ev_channel :: voice_channel

text \<open>\<open>on_voice_user_join\<close>\<close>

definition on_voice_user_join :: "voice_event \<Rightarrow> world \<Rightarrow> world" where
  "on_voice_user_join event s =
     (if is_bot (ev_author event) \<or> member_id (ev_author event) = bot_user_id s then s
      else
        (case get (vc_guild_id (ev_channel event)) s of
           None \<Rightarrow> s
         | Some voice_state \<Rightarrow>
             if vc_id (ev_channel event) \<noteq> vs_channel_id voice_state then s
             else
               (let consent_data = load s
                in if consent_data (str_int (member_id (ev_author event))) = None
                   then request_consent (vc_id (ev_channel event)) (ev_author event) s
                   else s)))"

text \<open>\<open>on_voice_user_leave\<close>\<close>

definition remaining :: "consent \<Rightarrow> voice_event \<Rightarrow> member list" where
  "remaining consent_data event =
     filter (\<lambda>m. \<not> is_bot m \<and> consent_data (str_int (member_id m)) \<noteq> None \<and>
                 member_id m \<noteq> member_id (ev_author event))
       (vc_members (ev_channel event))"

definition on_voice_user_leave :: "voice_event \<Rightarrow> world \<Rightarrow> world" where
  "on_voice_user_leave event s =
     (if is_bot (ev_author event) \<or> member_id (ev_author event) = bot_user_id s then s
      else
        (case get (vc_guild_id (ev_channel event)) s of
           None \<Rightarrow> s
         | Some voice_state \<Rightarrow>
             if vc_id (ev_channel event) \<noteq> vs_channel_id voice_state then s
             else
               (let consent_data = load s
                in if remaining consent_data event = [] then
                     (let s1 = s\<lparr>task_running := False\<rparr>;
                          (vs2, s2) = voice Disconnect voice_state s1;
                          (r, s3) = remove (vc_guild_id (ev_channel event)) s2
                      in send (ChannelSend (vc_id (ev_channel event)) AllLeft) s3)
                   else s)))"

section \<open>Scenarios\<close>

text \<open>Concrete values the properties below are run on: a guild \<open>1\<close> with the voice
  channel \<open>10\<close> and the text channel \<open>5\<close>.\<close>

definition vs_A :: voice_state where
  "vs_A = \<lparr>vs_channel_id = 10, vs_connected = True, vs_recording = True, rec_output = []\<rparr>"

definition vs_B :: voice_state where
  "vs_B = \<lparr>vs_channel_id = 20, vs_connected = True, vs_recording = True, rec_output = []\<rparr>"

definition world0 :: world where
  "world0 =
     \<lparr>active_recordings = Map.empty, consent_file = None, files = Map.empty, published = [],
      notices = [], voice_log = [], task_running = False, bot_user_id = 999,
      uuid_src = (\<lambda>n. ''uuid'' @ str_nat n), uuid_reads = 0,
      clock_src = (\<lambda>n. \<lparr>dt_year = 2024, dt_month = 3, dt_day = 9, dt_hour = 14, dt_minute = 5\<rparr>),
      clock_reads = 0\<rparr>"

definition world_A :: world where
  "world_A = world0\<lparr>active_recordings := [1 \<mapsto> vs_A], task_running := True\<rparr>"

definition ctx_no_voice :: slash_ctx where
  "ctx_no_voice =
     \<lparr>ctx_guild_id = 1, ctx_members = Map.empty, ctx_channel = 5, ctx_author_voice = None\<rparr>"

definition ctx_in_voice :: slash_ctx where
  "ctx_in_voice =
     \<lparr>ctx_guild_id = 1, ctx_members = Map.empty, ctx_channel = 5,
      ctx_author_voice = Some \<lparr>vc_id = 10, vc_guild_id = 1, vc_members = []\<rparr>\<rparr>"

text \<open>A consent button made for participant \<open>42\<close>, pressed by user \<open>7\<close> and by
  participant \<open>42\<close>.\<close>

definition ctx_press_other :: component_ctx where
  "ctx_press_other = \<lparr>custom_id = ''consent_allow_42'', cc_user_id = 7\<rparr>"

definition ctx_press_own :: component_ctx where
  "ctx_press_own = \<lparr>custom_id = ''consent_allow_42'', cc_user_id = 42\<rparr>"

text \<open>The queue names, a rejection event for guild \<open>1\<close>, an event whose payload does not
  parse, and an event on another channel.\<close>

definition cfg0 :: config where
  "cfg0 = \<lparr>AudioQueue = ''audio'', RejectedAudioQueue = ''rejected'',
            ProcessedAudioQueue = ''processed''\<rparr>"

definition rejection_1 :: message where
  "rejection_1 = \<lparr>msg_type = ''message'', msg_channel = ''rejected'', msg_data = Body (Some 1)\<rparr>"

definition malformed :: message where
  "malformed = \<lparr>msg_type = ''message'', msg_channel = ''rejected'', msg_data = Unparsable\<rparr>"

definition other_channel :: message where
  "other_channel = \<lparr>msg_type = ''message'', msg_channel = ''processed'', msg_data = Body (Some 1)\<rparr>"

section \<open>Notions used in the statements\<close>

text \<open>The directory and the path \<open>process_user_recording\<close> computes for a member name, a
  formatted time stamp and an identifier.\<close>

definition user_dir_of :: "string \<Rightarrow> string \<Rightarrow> path" where
  "user_dir_of name timestamp = path_div (path_div AUDIOS_DIR (safe_name name)) timestamp"

definition dest_of :: "string \<Rightarrow> string \<Rightarrow> string \<Rightarrow> path" where
  "dest_of name timestamp identifier =
     with_suffix (path_div (user_dir_of name timestamp) (identifier @ ''-'' @ timestamp)) ''.wav''"

text \<open>\<open>ctx.guild.get_member(user_id)\<close> finds a member, and it is no bot.\<close>

definition resolves :: "slash_ctx \<Rightarrow> int \<Rightarrow> bool" where
  "resolves ctx user_id = (case ctx_members ctx user_id of None \<Rightarrow> False | Some m \<Rightarrow> \<not> is_bot m)"

text \<open>The artifacts of a recorder: one per participant, each a file of its own in the
  working directory or directly in a directory below it (the recorder writes into
  \<open>AUDIOS_DIR\<close>).\<close>

definition separate_artifacts :: "(int \<times> path) list \<Rightarrow> bool" where
  "separate_artifacts outs =
     (distinct (map fst outs) \<and> distinct (map snd outs) \<and>
      list_all (\<lambda>(u, p). length p \<le> 2) outs)"

text \<open>A session in guild \<open>1\<close> that has captured three participants: alice (\<open>42\<close>), who
  has granted consent, bob (\<open>43\<close>), who has denied it, and a bot (\<open>50\<close>) for which the
  consent file holds \<open>true\<close>; carol (\<open>44\<close>) has not decided.\<close>

definition alice :: member where
  "alice = \<lparr>member_id = 42, username = ''alice'', is_bot = False, dm_open = True\<rparr>"

definition bob :: member where
  "bob = \<lparr>member_id = 43, username = ''bob.b'', is_bot = False, dm_open = False\<rparr>"

definition carol :: member where
  "carol = \<lparr>member_id = 44, username = ''carol'', is_bot = False, dm_open = True\<rparr>"

definition music_bot :: member where
  "music_bot = \<lparr>member_id = 50, username = ''musicbot'', is_bot = True, dm_open = False\<rparr>"

definition consent_R :: consent where
  "consent_R = [''42'' \<mapsto> True, ''43'' \<mapsto> False, ''50'' \<mapsto> True]"

definition vs_R :: voice_state where
  "vs_R = \<lparr>vs_channel_id = 10, vs_connected = True, vs_recording = True,
           rec_output = [(42, [''audio'', ''42.wav'']), (43, [''audio'', ''43.wav'']),
                         (50, [''audio'', ''50.wav''])]\<rparr>"

definition world_R :: world where
  "world_R = world0
     \<lparr>active_recordings := [1 \<mapsto> vs_R], consent_file := Some consent_R,
      files := [[''audio'', ''42.wav''] \<mapsto> ''A'', [''audio'', ''43.wav''] \<mapsto> ''B'',
                [''audio'', ''50.wav''] \<mapsto> ''M''],
      task_running := True\<rparr>"

definition ctx_R :: slash_ctx where
  "ctx_R =
     \<lparr>ctx_guild_id = 1, ctx_members = [42 \<mapsto> alice, 43 \<mapsto> bob, 50 \<mapsto> music_bot],
      ctx_channel = 5,
      ctx_author_voice = Some \<lparr>vc_id = 10, vc_guild_id = 1, vc_members = [alice, bob, music_bot]\<rparr>\<rparr>"

text \<open>alice leaves channel \<open>10\<close>; carol and the bot stay, or bob and the bot stay.\<close>

definition leave_carol_stays :: voice_event where
  "leave_carol_stays =
     \<lparr>ev_author = alice, ev_channel = \<lparr>vc_id = 10, vc_guild_id = 1, vc_members = [carol, music_bot]\<rparr>\<rparr>"

definition leave_bob_stays :: voice_event where
  "leave_bob_stays =
     \<lparr>ev_author = alice, ev_channel = \<lparr>vc_id = 10, vc_guild_id = 1, vc_members = [bob, music_bot]\<rparr>\<rparr>"

text \<open>The identifiers of the published messages are pairwise different, and each is a
  value the uuid source has already returned.\<close>

definition ids_fresh :: "world \<Rightarrow> bool" where
  "ids_fresh s =
     (distinct (map (\<lambda>m. seg_id (snd m)) (published s)) \<and>
      list_all (\<lambda>m. seg_id (snd m) \<in> uuid_src s ` {..< uuid_reads s}) (published s))"



section \<open>Facts about strings and integers\<close>

lemma of_char_digit_char: "d < 10 \<Longrightarrow> (of_char (digit_char d) :: nat) = 48 + d"
  by (simp add: digit_char_def)

lemma is_digit_digit_char: "d < 10 \<Longrightarrow> is_digit (digit_char d)"
  by (simp add: is_digit_def of_char_digit_char)

lemma str_nat_nonempty: "str_nat n \<noteq> []"
  by (subst str_nat.simps) simp

lemma str_nat_digits: "list_all is_digit (str_nat n)"
proof (induction n rule: str_nat.induct)
  case (1 n)
  show ?case
  proof (cases "n < 10")
    case True
    then show ?thesis by (subst str_nat.simps) (simp add: is_digit_digit_char)
  next
    case False
    with 1 show ?thesis by (subst str_nat.simps) (simp add: is_digit_digit_char)
  qed
qed

lemma digits_val_snoc: "digits_val (ds @ [c]) = 10 * digits_val ds + (of_char c - 48)"
  by (simp add: digits_val_def)

lemma digits_val_str_nat: "digits_val (str_nat n) = n"
proof (induction n rule: str_nat.induct)
  case (1 n)
  show ?case
  proof (cases "n < 10")
    case True
    then show ?thesis
      by (subst str_nat.simps) (simp add: digits_val_def of_char_digit_char)
  next
    case False
    with 1 show ?thesis
      by (subst str_nat.simps) (simp add: digits_val_snoc of_char_digit_char)
  qed
qed

lemma py_nat_str_nat: "py_nat (str_nat n) = Some n"
  by (simp add: py_nat_def str_nat_nonempty str_nat_digits digits_val_str_nat)

lemma digit_not_space: "is_digit c \<Longrightarrow> \<not> is_int_space c"
  by (auto simp: is_digit_def is_int_space_def)

lemma digit_not_sign: "is_digit c \<Longrightarrow> c \<noteq> CHR ''-'' \<and> c \<noteq> CHR ''+''"
  by (auto simp: is_digit_def)

lemma dropWhile_keep: "xs \<noteq> [] \<Longrightarrow> \<not> P (hd xs) \<Longrightarrow> dropWhile P xs = xs"
  by (cases xs) auto

lemma strip_space_keep:
  assumes "xs \<noteq> []" "\<not> is_int_space (hd xs)" "\<not> is_int_space (last xs)"
  shows "strip_space xs = xs"
proof -
  have "dropWhile is_int_space xs = xs" using assms by (simp add: dropWhile_keep)
  moreover have "dropWhile is_int_space (rev xs) = rev xs"
    using assms by (simp add: dropWhile_keep hd_rev)
  ultimately show ?thesis by (simp add: strip_space_def)
qed

lemma str_nat_hd_last: "is_digit (hd (str_nat n)) \<and> is_digit (last (str_nat n))"
  using str_nat_digits [of n] str_nat_nonempty [of n]
  by (cases "str_nat n") (auto simp: list_all_iff)

text \<open>\<open>int(str(i)) = i\<close>: the key under which a participant's decision is looked up
  names that participant and no other.\<close>

lemma py_int_str_int: "py_int (str_int i) = Some i"
proof (cases "i < 0")
  case True
  let ?ds = "str_nat (nat (- i))"
  have "strip_space (CHR ''-'' # ?ds) = CHR ''-'' # ?ds"
    using str_nat_hd_last [of "nat (- i)"] str_nat_nonempty [of "nat (- i)"]
    by (intro strip_space_keep) (auto simp: digit_not_space is_int_space_def [of "CHR ''-''"])
  with True show ?thesis
    by (simp add: py_int_def str_int_def py_nat_str_nat)
next
  case False
  let ?ds = "str_nat (nat i)"
  obtain c r where cr: "?ds = c # r"
    using str_nat_nonempty [of "nat i"] by (cases ?ds) auto
  have c: "is_digit c" using str_nat_hd_last [of "nat i"] cr by simp
  have "strip_space ?ds = ?ds"
    using str_nat_hd_last [of "nat i"] str_nat_nonempty [of "nat i"]
    by (intro strip_space_keep) (auto simp: digit_not_space)
  with False cr c digit_not_sign [OF c] py_nat_str_nat [of "nat i"] show ?thesis
    by (simp add: py_int_def str_int_def)
qed

lemma str_int_inj: "str_int i = str_int j \<Longrightarrow> i = j"
  by (metis py_int_str_int option.inject)

section \<open>The registry\<close>

text \<open>
  C9, as stated: \<open>add\<close> on a guild that already holds a session is rejected and the
  entry stays. It does not hold: with \<open>vs_A\<close> registered for guild \<open>1\<close>, adding
  \<open>vs_B\<close> for guild \<open>1\<close> leaves \<open>vs_B\<close> there.
\<close>

theorem add_existing_counterexample:
  "get 1 world_A = Some vs_A \<and> get 1 (add 1 vs_B world_A) = Some vs_B \<and> vs_B \<noteq> vs_A"
  by (simp add: get_def add_def world_A_def world0_def vs_A_def vs_B_def)

text \<open>
  C9, amended: \<open>add\<close> never rejects. It stores the given session under the guild,
  replacing any session held there, and changes nothing else; the registry holds at most
  one session per guild because it is a map. \<open>start_recording\<close> reaches no \<open>add\<close>
  when \<open>get\<close> finds a session: it leaves the registry as it is.
\<close>

theorem add_replaces_entry:
  "get guild_id (add guild_id vs s) = Some vs \<and>
   (\<forall>g. g \<noteq> guild_id \<longrightarrow> get g (add guild_id vs s) = get g s) \<and>
   add guild_id vs s = s\<lparr>active_recordings := (active_recordings s)(guild_id \<mapsto> vs)\<rparr> \<and>
   (get (ctx_guild_id ctx) s \<noteq> None \<longrightarrow>
      active_recordings (start_recording ctx s) = active_recordings s)"
  by (auto simp: get_def add_def start_recording_def send_def split: option.splits)

theorem add_replaces_entry_witness:
  "get 1 (add 1 vs_B world_A) = Some vs_B \<and>
   (2::int) \<noteq> 1 \<and> get 2 (add 1 vs_B world_A) = get 2 world_A \<and>
   get (ctx_guild_id ctx_in_voice) world_A \<noteq> None \<and>
   active_recordings (start_recording ctx_in_voice world_A) = active_recordings world_A"
proof -
  have g: "get (ctx_guild_id ctx_in_voice) world_A \<noteq> None"
    by (simp add: get_def ctx_in_voice_def world_A_def)
  show ?thesis
    using add_replaces_entry [of 1 vs_B world_A ctx_in_voice] g by (simp add: get_def)
qed

section \<open>Starting a recording\<close>

text \<open>
  C8, as stated: a request on a guild that already records, from a requester who is in
  no voice channel, is answered with the "already recording" failure. It is not: the
  answer is the "not in voice" one.
\<close>

theorem start_check_order_counterexample:
  "ctx_author_voice ctx_no_voice = None \<and>
   get (ctx_guild_id ctx_no_voice) world_A = Some vs_A \<and>
   notices (start_recording ctx_no_voice world_A) = [Reply MustBeInVoice True] \<and>
   notices (start_recording ctx_no_voice world_A) \<noteq> [Reply AlreadyActive True]"
  by (simp add: start_recording_def send_def get_def ctx_no_voice_def world_A_def world0_def)

text \<open>
  C8, amended: \<open>start_recording\<close> checks the requester first. Without a voice channel
  the request fails with the "not in voice" reply, whatever the registry holds; only
  otherwise, when the registry holds a session for the guild, it fails with the "already
  recording" reply. Either failure sends that one ephemeral reply and changes nothing
  else.
\<close>

theorem start_recording_check_order:
  "(ctx_author_voice ctx = None \<longrightarrow>
      start_recording ctx s = send (Reply MustBeInVoice True) s) \<and>
   (ctx_author_voice ctx \<noteq> None \<and> get (ctx_guild_id ctx) s \<noteq> None \<longrightarrow>
      start_recording ctx s = send (Reply AlreadyActive True) s)"
  by (auto simp: start_recording_def split: option.splits)

theorem start_recording_check_order_witness:
  "ctx_author_voice ctx_no_voice = None \<and>
   start_recording ctx_no_voice world_A = send (Reply MustBeInVoice True) world_A \<and>
   ctx_author_voice ctx_in_voice \<noteq> None \<and> get (ctx_guild_id ctx_in_voice) world_A \<noteq> None \<and>
   start_recording ctx_in_voice world_A = send (Reply AlreadyActive True) world_A"
proof -
  have a: "ctx_author_voice ctx_no_voice = None"
    by (simp add: ctx_no_voice_def)
  have b: "ctx_author_voice ctx_in_voice \<noteq> None \<and> get (ctx_guild_id ctx_in_voice) world_A \<noteq> None"
    by (simp add: get_def ctx_in_voice_def world_A_def)
  show ?thesis
    using start_recording_check_order [of ctx_no_voice world_A]
      start_recording_check_order [of ctx_in_voice world_A] a b by simp
qed

section \<open>Consent responses\<close>

lemma str_int_42: "str_int 42 = ''42''"
  by code_simp

lemma py_int_42: "py_int ''42'' = Some 42"
  using py_int_str_int [of 42] by (simp add: str_int_42)

lemma handle_consent_response_cases:
  "handle_consent_response ctx s = Inr s' \<Longrightarrow>
   \<exists>p action user_id. split_underscore (custom_id ctx) = [p, action, user_id] \<and>
     (case py_int user_id of None \<Rightarrow> False
      | Some n \<Rightarrow> if cc_user_id ctx \<noteq> n then s' = send (Reply CannotAnswer True) s
          else s' = send (Reply PreferenceSaved True) (save ((load s)(user_id \<mapsto> (action = ''allow''))) s))"
  by (auto simp: handle_consent_response_def Let_def split: list.splits option.splits if_splits)

text \<open>
  C10: a press on a consent button by a user other than the participant whose id the
  button's \<open>custom_id\<close> carries is answered with the ephemeral rejection and nothing
  else: the state differs from the one before by that one notice, so the consent file is
  as it was. Whenever a response changes what the consent record holds under a key, that
  key reads as the id of the responding user; so the decision looked up for a participant
  (under \<open>str\<close> of the participant's id) changes only by a response of that
  participant.
\<close>

theorem consent_response_only_own:
  "(split_underscore (custom_id ctx) = [p, action, user_id] \<and> py_int user_id = Some n \<and>
    cc_user_id ctx \<noteq> n \<longrightarrow>
      handle_consent_response ctx s = Inr (send (Reply CannotAnswer True) s) \<and>
      send (Reply CannotAnswer True) s = s\<lparr>notices := notices s @ [Reply CannotAnswer True]\<rparr>) \<and>
   (handle_consent_response ctx s = Inr s' \<and> load s' k \<noteq> load s k \<longrightarrow>
      py_int k = Some (cc_user_id ctx)) \<and>
   (handle_consent_response ctx s = Inr s' \<and>
    load s' (str_int participant) \<noteq> load s (str_int participant) \<longrightarrow>
      cc_user_id ctx = participant)"
proof -
  have key: "py_int k = Some (cc_user_id ctx)"
    if "handle_consent_response ctx s = Inr s'" "load s' k \<noteq> load s k" for k
    using handle_consent_response_cases [OF that(1)] that(2)
    by (auto simp: load_def save_def send_def split: option.splits if_splits)
  have a: "split_underscore (custom_id ctx) = [p, action, user_id] \<and> py_int user_id = Some n \<and>
    cc_user_id ctx \<noteq> n \<longrightarrow>
      handle_consent_response ctx s = Inr (send (Reply CannotAnswer True) s) \<and>
      send (Reply CannotAnswer True) s = s\<lparr>notices := notices s @ [Reply CannotAnswer True]\<rparr>"
    by (simp add: handle_consent_response_def send_def)
  have c: "cc_user_id ctx = participant"
    if "handle_consent_response ctx s = Inr s'"
       "load s' (str_int participant) \<noteq> load s (str_int participant)"
    using key [OF that] py_int_str_int [of participant] by simp
  from a key c show ?thesis by blast
qed

theorem consent_response_only_own_witness:
  "split_underscore (custom_id ctx_press_other) = [''consent'', ''allow'', ''42''] \<and>
   py_int ''42'' = Some 42 \<and> cc_user_id ctx_press_other \<noteq> 42 \<and>
   handle_consent_response ctx_press_other world0 = Inr (send (Reply CannotAnswer True) world0) \<and>
   load (send (Reply PreferenceSaved True) (save [''42'' \<mapsto> True] world0)) (str_int 42)
     \<noteq> load world0 (str_int 42) \<and>
   handle_consent_response ctx_press_own world0
     = Inr (send (Reply PreferenceSaved True) (save [''42'' \<mapsto> True] world0)) \<and>
   cc_user_id ctx_press_own = 42"
proof -
  have sp: "split_underscore (custom_id ctx_press_other) = [''consent'', ''allow'', ''42'']"
    by (simp add: ctx_press_other_def)
  have ne: "cc_user_id ctx_press_other \<noteq> 42"
    by (simp add: ctx_press_other_def)
  have own: "handle_consent_response ctx_press_own world0
     = Inr (send (Reply PreferenceSaved True) (save [''42'' \<mapsto> True] world0))"
    by (simp add: handle_consent_response_def ctx_press_own_def py_int_42 load_def world0_def)
  have ch: "load (send (Reply PreferenceSaved True) (save [''42'' \<mapsto> True] world0)) (str_int 42)
     \<noteq> load world0 (str_int 42)"
    by (simp add: load_def save_def send_def world0_def str_int_42)
  show ?thesis
    using consent_response_only_own [of ctx_press_other "''consent''" "''allow''" "''42''" 42 world0]
      consent_response_only_own [of ctx_press_own _ _ _ _ world0
        "send (Reply PreferenceSaved True) (save [''42'' \<mapsto> True] world0)" _ 42]
      sp ne own ch py_int_42
    by simp
qed

section \<open>The rejection consumer\<close>

lemma on_ready_loop_append:
  "on_ready_loop cfg counter (xs @ ys) s =
     (case on_ready_loop cfg counter xs s of
        Inl e \<Rightarrow> Inl e
      | Inr (counter', s') \<Rightarrow> on_ready_loop cfg counter' ys s')"
  by (induction cfg counter xs s rule: on_ready_loop.induct)
     (auto simp: Let_def split: payload.splits option.splits prod.splits)

lemma on_ready_loop_stuck:
  "\<forall>m \<in> set ms. msg_type m = ''message'' \<longrightarrow>
       msg_channel m = RejectedAudioQueue cfg \<and> msg_data m \<noteq> Unparsable \<Longrightarrow>
   counter \<noteq> 7 \<Longrightarrow> on_ready_loop cfg counter ms s = Inr (counter, s)"
  by (induction ms) (auto split: payload.splits)

text \<open>
  C3 says that each rejection event advances the counter, and that 14 events for one
  guild with a connected session give two error cues. The loop does otherwise: on a
  message of the rejection channel it goes to the next message whenever the counter is
  not 7, before the line that advances the counter. From zero, over any run of rejection
  events with a readable payload, the counter stays zero and the state is untouched: no
  cue is played.
\<close>

theorem rejection_counter_stays_zero:
  "\<forall>m \<in> set ms. msg_type m = ''message'' \<longrightarrow>
       msg_channel m = RejectedAudioQueue cfg \<and> msg_data m \<noteq> Unparsable
   \<Longrightarrow> on_ready cfg ms s = Inr (0, s)"
  by (simp add: on_ready_def on_ready_loop_stuck)

text \<open>Fourteen rejection events for guild \<open>1\<close>, whose session is registered and
  connected: the voice layer sees no call at all.\<close>

theorem rejection_counter_stays_zero_witness:
  "get 1 world_A = Some vs_A \<and> vs_connected vs_A \<and> voice_log world_A = [] \<and>
   on_ready cfg0 (replicate 14 rejection_1) world_A = Inr (0, world_A)"
proof -
  have "\<forall>m \<in> set (replicate 14 rejection_1). msg_type m = ''message'' \<longrightarrow>
       msg_channel m = RejectedAudioQueue cfg0 \<and> msg_data m \<noteq> Unparsable"
    by (simp add: rejection_1_def cfg0_def)
  from rejection_counter_stays_zero [OF this, of world_A] show ?thesis
    by (simp add: get_def world_A_def world0_def vs_A_def)
qed

text \<open>
  C7, as stated: an event with an unparsable payload is dropped and the events after it
  are processed. It is not so: the decode error leaves the loop. Here the event after the
  malformed one, on another channel, would have advanced the counter to 1.
\<close>

theorem malformed_event_counterexample:
  "on_ready cfg0 [other_channel] world_A = Inr (1, world_A) \<and>
   on_ready cfg0 [malformed, other_channel] world_A = Inl JSONDecodeError"
  by (simp add: on_ready_def malformed_def other_channel_def cfg0_def)

text \<open>
  C7, amended: \<open>json.loads\<close> is called on every message of type \<open>message\<close> with nothing
  around it to catch its exception. A message whose payload does not parse ends the
  consumer loop with the decode error, whatever messages follow it; the messages before
  it have been processed as usual. A message of another type is skipped before its data
  is parsed.
\<close>

theorem malformed_event_ends_loop:
  "(msg_type m = ''message'' \<and> msg_data m = Unparsable \<longrightarrow>
      on_ready_loop cfg counter (before @ m # after) s =
        (case on_ready_loop cfg counter before s of
           Inl e \<Rightarrow> Inl e
         | Inr (counter', s') \<Rightarrow> Inl JSONDecodeError)) \<and>
   (msg_type m \<noteq> ''message'' \<longrightarrow>
      on_ready_loop cfg counter (m # after) s = on_ready_loop cfg counter after s)"
  by (auto simp: on_ready_loop_append split: sum.splits prod.splits)

theorem malformed_event_ends_loop_witness:
  "msg_type malformed = ''message'' \<and> msg_data malformed = Unparsable \<and>
   on_ready_loop cfg0 0 ([other_channel] @ malformed # [rejection_1]) world_A = Inl JSONDecodeError \<and>
   msg_type (malformed\<lparr>msg_type := ''subscribe''\<rparr>) \<noteq> ''message'' \<and>
   on_ready_loop cfg0 0 (malformed\<lparr>msg_type := ''subscribe''\<rparr> # [other_channel]) world_A =
     Inr (1, world_A)"
proof -
  have a: "msg_type malformed = ''message'' \<and> msg_data malformed = Unparsable"
    by (simp add: malformed_def)
  have b: "msg_type (malformed\<lparr>msg_type := ''subscribe''\<rparr>) \<noteq> ''message''"
    by simp
  have c: "on_ready_loop cfg0 0 [other_channel] world_A = Inr (1, world_A)"
    by (simp add: other_channel_def cfg0_def)
  show ?thesis
    using malformed_event_ends_loop [of malformed cfg0 0 "[other_channel]" "[rejection_1]" world_A]
      malformed_event_ends_loop [of "malformed\<lparr>msg_type := ''subscribe''\<rparr>" cfg0 0 _ "[other_channel]" world_A]
      a b c by simp
qed

section \<open>Facts about one recording and about a flush\<close>

lemma dash_in_strftime: "CHR ''-'' \<in> set (strftime d)"
  by (simp add: strftime_def)

lemma path_div_dash: "CHR ''-'' \<in> set seg \<Longrightarrow> path_div p seg = p @ [seg]"
  by (auto simp: path_div_def)

lemma length_with_suffix: "length (with_suffix p suffix) = length p"
  by (cases "p = []") (simp_all add: with_suffix_def)

lemma user_dir_of_alt:
  "user_dir_of name (strftime d) = path_div AUDIOS_DIR (safe_name name) @ [strftime d]"
  by (simp add: user_dir_of_def path_div_dash dash_in_strftime)

lemma butlast_dest_of:
  "butlast (dest_of name (strftime d) identifier) = user_dir_of name (strftime d)"
  by (simp add: dest_of_def with_suffix_def path_div_dash dash_in_strftime)

lemma length_dest_of: "3 \<le> length (dest_of name (strftime d) identifier)"
  by (simp add: dest_of_def length_with_suffix path_div_dash dash_in_strftime user_dir_of_alt)
     (simp add: path_div_def AUDIOS_DIR_def)

lemma process_not_granted:
  "\<not> granted consent_data user_id \<Longrightarrow>
   process_user_recording cfg ctx user_id file_path consent_data channel_id s =
     (Inr None, unlink file_path s)"
  by (simp add: process_user_recording_def)

lemma process_unresolved:
  "granted consent_data user_id \<Longrightarrow> \<not> resolves ctx user_id \<Longrightarrow>
   process_user_recording cfg ctx user_id file_path consent_data channel_id s = (Inr None, s)"
  by (simp add: process_user_recording_def resolves_def split: option.splits)

lemma process_missing_file:
  "granted consent_data user_id \<Longrightarrow> resolves ctx user_id \<Longrightarrow> files s file_path = None \<Longrightarrow>
   process_user_recording cfg ctx user_id file_path consent_data channel_id s =
     (Inl FileNotFoundError,
      s\<lparr>clock_reads := Suc (clock_reads s), uuid_reads := Suc (uuid_reads s)\<rparr>)"
  by (auto simp: process_user_recording_def resolves_def move_def Let_def split: option.splits)

lemma process_moved:
  assumes "granted consent_data user_id" "ctx_members ctx user_id = Some mem" "\<not> is_bot mem"
    "files s file_path = Some data"
  shows "process_user_recording cfg ctx user_id file_path consent_data channel_id s =
     (let timestamp = strftime (clock_src s (clock_reads s));
          identifier = uuid_src s (uuid_reads s);
          dest_path = dest_of (username mem) timestamp identifier
      in (Inr (Some dest_path),
          s\<lparr>clock_reads := Suc (clock_reads s), uuid_reads := Suc (uuid_reads s),
            files := ((files s)(file_path := None))(dest_path \<mapsto> data),
            published := published s @
              [(AudioQueue cfg,
                \<lparr>seg_id = identifier, seg_path = path_str dest_path, seg_userId = user_id,
                 seg_user = username mem, seg_channelId = channel_id,
                 seg_guildId = ctx_guild_id ctx\<rparr>)]\<rparr>))"
  using assms
  by (simp add: process_user_recording_def move_def publish_def Let_def dest_of_def user_dir_of_def)



lemma process_published:
  assumes "process_user_recording cfg ctx user_id file_path consent_data channel_id s = (r, s1)"
  shows "if granted consent_data user_id \<and> resolves ctx user_id \<and> files s file_path \<noteq> None
         then \<exists>seg. published s1 = published s @ [(AudioQueue cfg, seg)] \<and>
                seg_userId seg = user_id \<and> seg_channelId seg = channel_id \<and>
                seg_guildId seg = ctx_guild_id ctx
         else published s1 = published s"
proof (cases "granted consent_data user_id")
  case False
  with assms show ?thesis by (auto simp: process_not_granted unlink_def)
next
  case True
  show ?thesis
  proof (cases "resolves ctx user_id")
    case False
    with True assms show ?thesis by (auto simp: process_unresolved)
  next
    case res: True
    show ?thesis
    proof (cases "files s file_path")
      case None
      with True res assms show ?thesis by (auto simp: process_missing_file)
    next
      case (Some data)
      from res obtain mem where m: "ctx_members ctx user_id = Some mem" "\<not> is_bot mem"
        by (auto simp: resolves_def split: option.splits)
      from process_moved [OF True m Some, of cfg channel_id] assms True res Some
      show ?thesis by (auto simp: Let_def)
    qed
  qed
qed

text \<open>A path of at most two components is never a destination: after one call it holds
  what it held, unless it is the artifact of the call and the artifact was deleted or
  moved away.\<close>

lemma process_files_short:
  assumes "process_user_recording cfg ctx user_id file_path consent_data channel_id s = (r, s1)"
    and "length q \<le> 2"
  shows "files s1 q =
     (if q = file_path \<and> (granted consent_data user_id \<longrightarrow> resolves ctx user_id) then None
      else files s q)"
proof (cases "granted consent_data user_id")
  case False
  with assms show ?thesis by (auto simp: process_not_granted unlink_def)
next
  case True
  show ?thesis
  proof (cases "resolves ctx user_id")
    case False
    with True assms show ?thesis by (auto simp: process_unresolved)
  next
    case res: True
    show ?thesis
    proof (cases "files s file_path")
      case None
      with True res assms show ?thesis by (auto simp: process_missing_file)
    next
      case (Some data)
      from res obtain mem where m: "ctx_members ctx user_id = Some mem" "\<not> is_bot mem"
        by (auto simp: resolves_def split: option.splits)
      have "q \<noteq> dest_of (username mem) (strftime (clock_src s (clock_reads s)))
                 (uuid_src s (uuid_reads s))"
        using length_dest_of [of "username mem" "clock_src s (clock_reads s)" "uuid_src s (uuid_reads s)"]
          assms(2) by auto
      with process_moved [OF True m Some, of cfg channel_id] assms True res
      show ?thesis by (auto simp: Let_def)
    qed
  qed
qed

lemma run_tasks_files_short:
  "run_tasks cfg ctx consent_data channel_id outs s = (rs, s') \<Longrightarrow> length q \<le> 2 \<Longrightarrow>
   files s' q =
     (if \<exists>u. (u, q) \<in> set outs \<and> (granted consent_data u \<longrightarrow> resolves ctx u) then None
      else files s q)"
proof (induction outs arbitrary: s rs s')
  case Nil
  then show ?case by simp
next
  case (Cons a outs)
  obtain user_id file_path where a: "a = (user_id, file_path)" by (cases a)
  obtain r s1 where p: "process_user_recording cfg ctx user_id file_path consent_data channel_id s = (r, s1)"
    by (cases "process_user_recording cfg ctx user_id file_path consent_data channel_id s")
  obtain rs2 s2 where t: "run_tasks cfg ctx consent_data channel_id outs s1 = (rs2, s2)"
    by (cases "run_tasks cfg ctx consent_data channel_id outs s1")
  from Cons.prems a p t have s': "s' = s2" by simp
  from Cons.IH [OF t Cons.prems(2)] process_files_short [OF p Cons.prems(2)] s' a
  show ?case by auto
qed

text \<open>What a flush publishes, whatever the files: messages on the audio queue, each for
  a participant of the flush who has granted consent and is found as a member that is no
  bot.\<close>

lemma run_tasks_published:
  "run_tasks cfg ctx consent_data channel_id outs s = (rs, s') \<Longrightarrow>
   \<exists>new. published s' = published s @ new \<and>
     (\<forall>m \<in> set new. fst m = AudioQueue cfg \<and> seg_userId (snd m) \<in> fst ` set outs \<and>
        granted consent_data (seg_userId (snd m)) \<and> resolves ctx (seg_userId (snd m)) \<and>
        seg_channelId (snd m) = channel_id \<and> seg_guildId (snd m) = ctx_guild_id ctx)"
proof (induction outs arbitrary: s rs s')
  case Nil
  then show ?case by simp
next
  case (Cons a outs)
  obtain user_id file_path where a: "a = (user_id, file_path)" by (cases a)
  obtain r s1 where p: "process_user_recording cfg ctx user_id file_path consent_data channel_id s = (r, s1)"
    by (cases "process_user_recording cfg ctx user_id file_path consent_data channel_id s")
  obtain rs2 s2 where t: "run_tasks cfg ctx consent_data channel_id outs s1 = (rs2, s2)"
    by (cases "run_tasks cfg ctx consent_data channel_id outs s1")
  from Cons.prems a p t have s': "s' = s2" by simp
  from Cons.IH [OF t] obtain new2 where n2: "published s2 = published s1 @ new2"
    "\<forall>m \<in> set new2. fst m = AudioQueue cfg \<and> seg_userId (snd m) \<in> fst ` set outs \<and>
        granted consent_data (seg_userId (snd m)) \<and> resolves ctx (seg_userId (snd m)) \<and>
        seg_channelId (snd m) = channel_id \<and> seg_guildId (snd m) = ctx_guild_id ctx"
    by blast
  show ?case
  proof (cases "granted consent_data user_id \<and> resolves ctx user_id \<and> files s file_path \<noteq> None")
    case True
    with process_published [OF p] obtain seg where seg:
      "published s1 = published s @ [(AudioQueue cfg, seg)]" "seg_userId seg = user_id"
      "seg_channelId seg = channel_id" "seg_guildId seg = ctx_guild_id ctx"
      by auto
    let ?new = "(AudioQueue cfg, seg) # new2"
    have "published s' = published s @ ?new" using n2(1) seg(1) s' by simp
    moreover have "\<forall>m \<in> set ?new. fst m = AudioQueue cfg \<and> seg_userId (snd m) \<in> fst ` set (a # outs) \<and>
        granted consent_data (seg_userId (snd m)) \<and> resolves ctx (seg_userId (snd m)) \<and>
        seg_channelId (snd m) = channel_id \<and> seg_guildId (snd m) = ctx_guild_id ctx"
      using n2(2) seg True a by auto
    ultimately show ?thesis by blast
  next
    case False
    with process_published [OF p] have "published s1 = published s" by auto
    with n2 s' have "published s' = published s @ new2" by simp
    moreover have "\<forall>m \<in> set new2. fst m = AudioQueue cfg \<and> seg_userId (snd m) \<in> fst ` set (a # outs) \<and>
        granted consent_data (seg_userId (snd m)) \<and> resolves ctx (seg_userId (snd m)) \<and>
        seg_channelId (snd m) = channel_id \<and> seg_guildId (snd m) = ctx_guild_id ctx"
      using n2(2) by auto
    ultimately show ?thesis by blast
  qed
qed

text \<open>With each artifact at a path of its own of at most two components, the flush
  publishes one message for each participant who has granted consent, is found as a
  member that is no bot and whose file is there, in the order of the recorder's output.\<close>

lemma run_tasks_published_users:
  "run_tasks cfg ctx consent_data channel_id outs s = (rs, s') \<Longrightarrow>
   distinct (map snd outs) \<Longrightarrow> list_all (\<lambda>(u, p). length p \<le> 2) outs \<Longrightarrow>
   \<exists>new. published s' = published s @ new \<and>
     map (\<lambda>m. seg_userId (snd m)) new =
       map fst (filter (\<lambda>(u, p). granted consent_data u \<and> resolves ctx u \<and> files s p \<noteq> None) outs)"
proof (induction outs arbitrary: s rs s')
  case Nil
  then show ?case by simp
next
  case (Cons a outs)
  obtain user_id file_path where a: "a = (user_id, file_path)" by (cases a)
  obtain r s1 where p: "process_user_recording cfg ctx user_id file_path consent_data channel_id s = (r, s1)"
    by (cases "process_user_recording cfg ctx user_id file_path consent_data channel_id s")
  obtain rs2 s2 where t: "run_tasks cfg ctx consent_data channel_id outs s1 = (rs2, s2)"
    by (cases "run_tasks cfg ctx consent_data channel_id outs s1")
  from Cons.prems a p t have s': "s' = s2" by simp
  have d: "distinct (map snd outs)" and l: "list_all (\<lambda>(u, p). length p \<le> 2) outs"
    using Cons.prems by simp_all
  from Cons.IH [OF t d l] obtain new2 where n2: "published s2 = published s1 @ new2"
    "map (\<lambda>m. seg_userId (snd m)) new2 =
       map fst (filter (\<lambda>(u, p). granted consent_data u \<and> resolves ctx u \<and> files s1 p \<noteq> None) outs)"
    by blast
  have same: "files s1 q = files s q" if "(u, q) \<in> set outs" for u q
  proof -
    have "length q \<le> 2" using l that by (auto simp: list_all_iff)
    moreover have "q \<noteq> file_path" using Cons.prems(2) a that by (auto simp: image_iff)
    ultimately show ?thesis using process_files_short [OF p] by simp
  qed
  have f: "filter (\<lambda>(u, p). granted consent_data u \<and> resolves ctx u \<and> files s1 p \<noteq> None) outs =
           filter (\<lambda>(u, p). granted consent_data u \<and> resolves ctx u \<and> files s p \<noteq> None) outs"
    by (rule filter_cong) (auto simp: same)
  show ?case
  proof (cases "granted consent_data user_id \<and> resolves ctx user_id \<and> files s file_path \<noteq> None")
    case True
    with process_published [OF p] obtain seg where seg:
      "published s1 = published s @ [(AudioQueue cfg, seg)]" "seg_userId seg = user_id"
      by auto
    have "published s' = published s @ ((AudioQueue cfg, seg) # new2)"
      using n2(1) seg(1) s' by simp
    moreover have "map (\<lambda>m. seg_userId (snd m)) ((AudioQueue cfg, seg) # new2) =
       map fst (filter (\<lambda>(u, p). granted consent_data u \<and> resolves ctx u \<and> files s p \<noteq> None) (a # outs))"
      using n2(2) f seg(2) True a by simp
    ultimately show ?thesis by blast
  next
    case False
    with process_published [OF p] have "published s1 = published s" by auto
    with n2 s' have "published s' = published s @ new2" by simp
    moreover have "map (\<lambda>m. seg_userId (snd m)) new2 =
       map fst (filter (\<lambda>(u, p). granted consent_data u \<and> resolves ctx u \<and> files s p \<noteq> None) (a # outs))"
      using n2(2) f False a by auto
    ultimately show ?thesis by blast
  qed
qed

text \<open>Both flushes, the one of the rotation task and the one of the stop command, run
  the tasks with the consent record as loaded then, on the output of the session's
  recorder, from a state with the files and the published messages of the start; what
  the tasks leave is what the handler leaves.\<close>

lemma scheduled_task_flush:
  assumes "get (ctx_guild_id ctx) s = Some vs"
  shows "\<exists>s1 rs s2. files s1 = files s \<and> published s1 = published s \<and>
     uuid_src s1 = uuid_src s \<and> uuid_reads s1 = uuid_reads s \<and>
     run_tasks cfg ctx (load s) (vs_channel_id vs) (rec_output vs) s1 = (rs, s2) \<and>
     files (scheduled_transcription_task cfg ctx s) = files s2 \<and>
     published (scheduled_transcription_task cfg ctx s) = published s2 \<and>
     uuid_src (scheduled_transcription_task cfg ctx s) = uuid_src s2 \<and>
     uuid_reads (scheduled_transcription_task cfg ctx s) = uuid_reads s2"
proof -
  let ?s1 = "s\<lparr>voice_log := voice_log s @ [(vs_channel_id vs, StopRecording)]\<rparr>"
  obtain rs s2 where t: "run_tasks cfg ctx (load s) (vs_channel_id vs) (rec_output vs) ?s1 = (rs, s2)"
    by (cases "run_tasks cfg ctx (load s) (vs_channel_id vs) (rec_output vs) ?s1")
  have l: "load ?s1 = load s" by (simp add: load_def)
  have "files (scheduled_transcription_task cfg ctx s) = files s2 \<and>
     published (scheduled_transcription_task cfg ctx s) = published s2 \<and>
     uuid_src (scheduled_transcription_task cfg ctx s) = uuid_src s2 \<and>
     uuid_reads (scheduled_transcription_task cfg ctx s) = uuid_reads s2"
    using assms t l
    by (simp add: scheduled_transcription_task_def voice_def store_back_def send_def Let_def
          split: sum.splits)
  with t show ?thesis by (intro exI [of _ ?s1] exI [of _ rs] exI [of _ s2]) simp
qed

lemma stop_recording_flush:
  assumes "get (ctx_guild_id ctx) s = Some vs"
  shows "\<exists>s1 rs s2. files s1 = files s \<and> published s1 = published s \<and>
     uuid_src s1 = uuid_src s \<and> uuid_reads s1 = uuid_reads s \<and>
     run_tasks cfg ctx (load s) (vs_channel_id vs) (rec_output vs) s1 = (rs, s2) \<and>
     files (stop_recording cfg ctx s) = files s2 \<and>
     published (stop_recording cfg ctx s) = published s2 \<and>
     uuid_src (stop_recording cfg ctx s) = uuid_src s2 \<and>
     uuid_reads (stop_recording cfg ctx s) = uuid_reads s2"
proof -
  let ?s1 = "s\<lparr>active_recordings := (active_recordings s)(ctx_guild_id ctx := None),
               task_running := False,
               voice_log := voice_log s @
                 [(vs_channel_id vs, StopRecording), (vs_channel_id vs, PlayNoWait CueStop)]\<rparr>"
  obtain rs s2 where t: "run_tasks cfg ctx (load s) (vs_channel_id vs) (rec_output vs) ?s1 = (rs, s2)"
    by (cases "run_tasks cfg ctx (load s) (vs_channel_id vs) (rec_output vs) ?s1")
  have l: "load ?s1 = load s" by (simp add: load_def)
  have "files (stop_recording cfg ctx s) = files s2 \<and>
     published (stop_recording cfg ctx s) = published s2 \<and>
     uuid_src (stop_recording cfg ctx s) = uuid_src s2 \<and>
     uuid_reads (stop_recording cfg ctx s) = uuid_reads s2"
    using assms t l
    by (simp add: stop_recording_def remove_def get_def voice_def send_def Let_def
          split: sum.splits)
  with t show ?thesis by (intro exI [of _ ?s1] exI [of _ rs] exI [of _ s2]) simp
qed

lemma handler_flush:
  assumes "get (ctx_guild_id ctx) s = Some vs"
    and "h = scheduled_transcription_task cfg ctx s \<or> h = stop_recording cfg ctx s"
  shows "\<exists>s1 rs s2. files s1 = files s \<and> published s1 = published s \<and>
     uuid_src s1 = uuid_src s \<and> uuid_reads s1 = uuid_reads s \<and>
     run_tasks cfg ctx (load s) (vs_channel_id vs) (rec_output vs) s1 = (rs, s2) \<and>
     files h = files s2 \<and> published h = published s2 \<and>
     uuid_src h = uuid_src s2 \<and> uuid_reads h = uuid_reads s2"
  using assms scheduled_task_flush [OF assms(1), of cfg] stop_recording_flush [OF assms(1), of cfg]
  by blast

section \<open>Consent gating of a flush\<close>

lemma not_granted_iff:
  "(\<not> granted consent_data user_id) =
   (consent_data (str_int user_id) = None \<or> consent_data (str_int user_id) = Some False)"
  by (auto simp: granted_def split: option.splits)

lemma granted_iff: "granted consent_data user_id = (consent_data (str_int user_id) = Some True)"
  by (auto simp: granted_def split: option.splits)

text \<open>
  C1: a participant whose entry in the consent record is \<open>false\<close> or missing.
  \<open>process_user_recording\<close> deletes the artifact, returns no path and changes nothing
  else. In the flush of the rotation task and in the flush of the stop command, no
  message published carries the participant's id, and the artifact (a path of at most two
  components, as the recorder writes them) is absent when the handler is done.
\<close>

theorem unconsented_never_published:
  "(consent_data (str_int user_id) = None \<or> consent_data (str_int user_id) = Some False \<longrightarrow>
      process_user_recording cfg ctx user_id file_path consent_data channel_id s0 =
        (Inr None, s0\<lparr>files := (files s0)(file_path := None)\<rparr>)) \<and>
   (get (ctx_guild_id ctx) s = Some vs \<and> (user_id, file_path) \<in> set (rec_output vs) \<and>
    (load s (str_int user_id) = None \<or> load s (str_int user_id) = Some False) \<and>
    (h = scheduled_transcription_task cfg ctx s \<or> h = stop_recording cfg ctx s) \<longrightarrow>
      (\<exists>new. published h = published s @ new \<and>
             (\<forall>m \<in> set new. seg_userId (snd m) \<noteq> user_id)) \<and>
      (length file_path \<le> 2 \<longrightarrow> files h file_path = None))"
proof (rule conjI)
  show "consent_data (str_int user_id) = None \<or> consent_data (str_int user_id) = Some False \<longrightarrow>
      process_user_recording cfg ctx user_id file_path consent_data channel_id s0 =
        (Inr None, s0\<lparr>files := (files s0)(file_path := None)\<rparr>)"
    by (simp add: process_not_granted not_granted_iff [symmetric] unlink_def)
next
  show "get (ctx_guild_id ctx) s = Some vs \<and> (user_id, file_path) \<in> set (rec_output vs) \<and>
    (load s (str_int user_id) = None \<or> load s (str_int user_id) = Some False) \<and>
    (h = scheduled_transcription_task cfg ctx s \<or> h = stop_recording cfg ctx s) \<longrightarrow>
      (\<exists>new. published h = published s @ new \<and>
             (\<forall>m \<in> set new. seg_userId (snd m) \<noteq> user_id)) \<and>
      (length file_path \<le> 2 \<longrightarrow> files h file_path = None)"
  proof (intro impI, elim conjE)
    assume g: "get (ctx_guild_id ctx) s = Some vs" and m: "(user_id, file_path) \<in> set (rec_output vs)"
      and n: "load s (str_int user_id) = None \<or> load s (str_int user_id) = Some False"
      and h: "h = scheduled_transcription_task cfg ctx s \<or> h = stop_recording cfg ctx s"
    from handler_flush [OF g h] obtain s1 rs s2 where
      s1: "files s1 = files s" "published s1 = published s" and
      t: "run_tasks cfg ctx (load s) (vs_channel_id vs) (rec_output vs) s1 = (rs, s2)" and
      hs: "files h = files s2" "published h = published s2"
      by blast
    have ng: "\<not> granted (load s) user_id" using n by (simp add: not_granted_iff)
    from run_tasks_published [OF t] obtain new where
      new: "published s2 = published s1 @ new"
        "\<forall>m \<in> set new. granted (load s) (seg_userId (snd m))"
      by blast
    have a: "\<exists>new. published h = published s @ new \<and>
             (\<forall>m \<in> set new. seg_userId (snd m) \<noteq> user_id)"
      using new ng hs(2) s1(2) by auto
    have b: "files h file_path = None" if "length file_path \<le> 2"
      using run_tasks_files_short [OF t that] m ng hs(1) by auto
    from a b show "(\<exists>new. published h = published s @ new \<and>
             (\<forall>m \<in> set new. seg_userId (snd m) \<noteq> user_id)) \<and>
      (length file_path \<le> 2 \<longrightarrow> files h file_path = None)" by blast
  qed
qed

theorem unconsented_never_published_witness:
  "consent_R (str_int 43) = Some False \<and>
   process_user_recording cfg0 ctx_R 43 [''audio'', ''43.wav''] consent_R 10 world_R =
     (Inr None, world_R\<lparr>files := (files world_R)([''audio'', ''43.wav''] := None)\<rparr>) \<and>
   get (ctx_guild_id ctx_R) world_R = Some vs_R \<and>
   (43, [''audio'', ''43.wav'']) \<in> set (rec_output vs_R) \<and>
   load world_R (str_int 43) = Some False \<and>
   (\<exists>new. published (stop_recording cfg0 ctx_R world_R) = published world_R @ new \<and>
          (\<forall>m \<in> set new. seg_userId (snd m) \<noteq> 43)) \<and>
   files world_R [''audio'', ''43.wav''] = Some ''B'' \<and>
   files (stop_recording cfg0 ctx_R world_R) [''audio'', ''43.wav''] = None"
proof -
  have k: "str_int 43 = ''43''" by code_simp
  have c: "consent_R (str_int 43) = Some False" by (simp add: k consent_R_def)
  have g: "get (ctx_guild_id ctx_R) world_R = Some vs_R"
    by (simp add: get_def ctx_R_def world_R_def)
  have m: "(43, [''audio'', ''43.wav'']) \<in> set (rec_output vs_R)" by (simp add: vs_R_def)
  have l: "load world_R (str_int 43) = Some False"
    by (simp add: load_def world_R_def c)
  have f: "files world_R [''audio'', ''43.wav''] = Some ''B''" by (simp add: world_R_def)
  show ?thesis
    using unconsented_never_published [of consent_R 43 cfg0 ctx_R "[''audio'', ''43.wav'']" 10
        world_R world_R vs_R "stop_recording cfg0 ctx_R world_R"] c g m l f
    by simp
qed

text \<open>
  C6, as stated: the artifact of a bot is deleted, whatever the consent record holds. It
  is not when the record holds \<open>true\<close> for the bot's id: the consent test comes first
  and lets the artifact pass, and the test for a bot then returns without touching the
  file. After either flush the file of the bot \<open>50\<close> is still there.
\<close>

theorem bot_artifact_kept_counterexample:
  "ctx_members ctx_R 50 = Some music_bot \<and> is_bot music_bot \<and>
   load world_R (str_int 50) = Some True \<and>
   get (ctx_guild_id ctx_R) world_R = Some vs_R \<and>
   (50, [''audio'', ''50.wav'']) \<in> set (rec_output vs_R) \<and>
   files world_R [''audio'', ''50.wav''] = Some ''M'' \<and>
   process_user_recording cfg0 ctx_R 50 [''audio'', ''50.wav''] (load world_R) 10 world_R =
     (Inr None, world_R) \<and>
   files (stop_recording cfg0 ctx_R world_R) [''audio'', ''50.wav''] = Some ''M'' \<and>
   files (scheduled_transcription_task cfg0 ctx_R world_R) [''audio'', ''50.wav''] = Some ''M''"
proof -
  have k: "str_int 50 = ''50''" by code_simp
  have mb: "ctx_members ctx_R 50 = Some music_bot" "is_bot music_bot"
    by (simp_all add: ctx_R_def music_bot_def)
  have l: "load world_R (str_int 50) = Some True"
    by (simp add: load_def world_R_def consent_R_def k)
  have g: "get (ctx_guild_id ctx_R) world_R = Some vs_R"
    by (simp add: get_def ctx_R_def world_R_def)
  have f: "files world_R [''audio'', ''50.wav''] = Some ''M''" by (simp add: world_R_def)
  have gr: "granted (load world_R) 50" using l by (simp add: granted_iff)
  have nr: "\<not> resolves ctx_R 50" using mb by (simp add: resolves_def)
  have keep: "files h [''audio'', ''50.wav''] = Some ''M''"
    if h: "h = scheduled_transcription_task cfg0 ctx_R world_R \<or> h = stop_recording cfg0 ctx_R world_R"
    for h
  proof -
    from handler_flush [OF g h] obtain s1 rs s2 where
      s1: "files s1 = files world_R" and
      t: "run_tasks cfg0 ctx_R (load world_R) (vs_channel_id vs_R) (rec_output vs_R) s1 = (rs, s2)" and
      hs: "files h = files s2"
      by blast
    have "\<not> (\<exists>u. (u, [''audio'', ''50.wav'']) \<in> set (rec_output vs_R) \<and>
                 (granted (load world_R) u \<longrightarrow> resolves ctx_R u))"
      using gr nr by (auto simp: vs_R_def)
    with run_tasks_files_short [OF t, of "[''audio'', ''50.wav'']"] hs s1 f
    show ?thesis by simp
  qed
  have p: "process_user_recording cfg0 ctx_R 50 [''audio'', ''50.wav''] (load world_R) 10 world_R =
     (Inr None, world_R)"
    using gr nr by (rule process_unresolved)
  show ?thesis using mb l g f p keep by (simp add: vs_R_def)
qed

text \<open>
  C6, amended: no segment is produced or published for a bot account, also when the
  consent record holds \<open>true\<close> for its id: \<open>process_user_recording\<close> returns no path and
  publishes nothing, and neither flush publishes a message with the bot's id. The consent
  record is consulted first, for a bot as for anyone: without a \<open>true\<close> entry the
  artifact is deleted by that test.
\<close>

theorem bot_never_published:
  "(ctx_members ctx user_id = Some mem \<and> is_bot mem \<longrightarrow>
      fst (process_user_recording cfg ctx user_id file_path consent_data channel_id s0) = Inr None \<and>
      published (snd (process_user_recording cfg ctx user_id file_path consent_data channel_id s0))
        = published s0) \<and>
   (ctx_members ctx user_id = Some mem \<and> is_bot mem \<and>
    consent_data (str_int user_id) \<noteq> Some True \<longrightarrow>
      process_user_recording cfg ctx user_id file_path consent_data channel_id s0 =
        (Inr None, s0\<lparr>files := (files s0)(file_path := None)\<rparr>)) \<and>
   (get (ctx_guild_id ctx) s = Some vs \<and> ctx_members ctx user_id = Some mem \<and> is_bot mem \<and>
    (h = scheduled_transcription_task cfg ctx s \<or> h = stop_recording cfg ctx s) \<longrightarrow>
      (\<exists>new. published h = published s @ new \<and>
             (\<forall>m \<in> set new. seg_userId (snd m) \<noteq> user_id)))"
proof (intro conjI)
  show "ctx_members ctx user_id = Some mem \<and> is_bot mem \<longrightarrow>
      fst (process_user_recording cfg ctx user_id file_path consent_data channel_id s0) = Inr None \<and>
      published (snd (process_user_recording cfg ctx user_id file_path consent_data channel_id s0))
        = published s0"
    by (simp add: process_user_recording_def unlink_def)
next
  show "ctx_members ctx user_id = Some mem \<and> is_bot mem \<and>
    consent_data (str_int user_id) \<noteq> Some True \<longrightarrow>
      process_user_recording cfg ctx user_id file_path consent_data channel_id s0 =
        (Inr None, s0\<lparr>files := (files s0)(file_path := None)\<rparr>)"
    by (simp add: process_not_granted granted_iff unlink_def)
next
  show "get (ctx_guild_id ctx) s = Some vs \<and> ctx_members ctx user_id = Some mem \<and> is_bot mem \<and>
    (h = scheduled_transcription_task cfg ctx s \<or> h = stop_recording cfg ctx s) \<longrightarrow>
      (\<exists>new. published h = published s @ new \<and>
             (\<forall>m \<in> set new. seg_userId (snd m) \<noteq> user_id))"
  proof (intro impI, elim conjE)
    assume g: "get (ctx_guild_id ctx) s = Some vs" and m: "ctx_members ctx user_id = Some mem"
      and b: "is_bot mem"
      and h: "h = scheduled_transcription_task cfg ctx s \<or> h = stop_recording cfg ctx s"
    from handler_flush [OF g h] obtain s1 rs s2 where
      s1: "published s1 = published s" and
      t: "run_tasks cfg ctx (load s) (vs_channel_id vs) (rec_output vs) s1 = (rs, s2)" and
      hs: "published h = published s2"
      by blast
    have nr: "\<not> resolves ctx user_id" using m b by (simp add: resolves_def)
    from run_tasks_published [OF t] obtain new where
      new: "published s2 = published s1 @ new"
        "\<forall>m \<in> set new. resolves ctx (seg_userId (snd m))"
      by blast
    show "\<exists>new. published h = published s @ new \<and>
             (\<forall>m \<in> set new. seg_userId (snd m) \<noteq> user_id)"
      using new nr hs s1 by auto
  qed
qed

theorem bot_never_published_witness:
  "ctx_members ctx_R 50 = Some music_bot \<and> is_bot music_bot \<and>
   fst (process_user_recording cfg0 ctx_R 50 [''audio'', ''50.wav''] consent_R 10 world_R) = Inr None \<and>
   published (snd (process_user_recording cfg0 ctx_R 50 [''audio'', ''50.wav''] consent_R 10 world_R))
     = published world_R \<and>
   Map.empty (str_int 50) \<noteq> Some True \<and>
   process_user_recording cfg0 ctx_R 50 [''audio'', ''50.wav''] Map.empty 10 world_R =
     (Inr None, world_R\<lparr>files := (files world_R)([''audio'', ''50.wav''] := None)\<rparr>) \<and>
   get (ctx_guild_id ctx_R) world_R = Some vs_R \<and>
   (\<exists>new. published (scheduled_transcription_task cfg0 ctx_R world_R) = published world_R @ new \<and>
          (\<forall>m \<in> set new. seg_userId (snd m) \<noteq> 50))"
proof -
  have mb: "ctx_members ctx_R 50 = Some music_bot \<and> is_bot music_bot"
    by (simp add: ctx_R_def music_bot_def)
  have g: "get (ctx_guild_id ctx_R) world_R = Some vs_R"
    by (simp add: get_def ctx_R_def world_R_def)
  show ?thesis
    using bot_never_published [of ctx_R 50 music_bot cfg0 "[''audio'', ''50.wav'']" consent_R 10
        world_R world_R vs_R "scheduled_transcription_task cfg0 ctx_R world_R"]
      bot_never_published [of ctx_R 50 music_bot cfg0 "[''audio'', ''50.wav'']" Map.empty 10
        world_R world_R vs_R "scheduled_transcription_task cfg0 ctx_R world_R"]
      mb g
    by simp
qed

section \<open>What is published for a consenting participant\<close>

lemma dot_not_digit: "is_digit c \<Longrightarrow> c \<noteq> CHR ''.''"
  by (auto simp: is_digit_def)

lemma no_dot_str_nat: "CHR ''.'' \<notin> set (str_nat n)"
  using str_nat_digits [of n] dot_not_digit by (auto simp: list_all_iff)

lemma no_dot_strftime: "CHR ''.'' \<notin> set (strftime d)"
  by (simp add: strftime_def pad2_def no_dot_str_nat)

lemma with_suffix_no_dot:
  "p \<noteq> [] \<Longrightarrow> CHR ''.'' \<notin> set (last p) \<Longrightarrow> with_suffix p suffix = butlast p @ [last p @ suffix]"
  by (simp add: with_suffix_def suffix_of_def)

lemma last_dest_of:
  "CHR ''.'' \<notin> set identifier \<Longrightarrow>
   last (dest_of name (strftime d) identifier) = identifier @ ''-'' @ strftime d @ ''.wav''"
  by (simp add: dest_of_def path_div_dash dash_in_strftime with_suffix_no_dot no_dot_strftime)

lemma count_fst_filter:
  "distinct (map fst xs) \<Longrightarrow> (u, p) \<in> set xs \<Longrightarrow> P (u, p) \<Longrightarrow>
   length (filter (\<lambda>x. x = u) (map fst (filter P xs))) = 1"
proof (induction xs)
  case Nil
  then show ?case by simp
next
  case (Cons a xs)
  show ?case
  proof (cases "a = (u, p)")
    case True
    have "filter (\<lambda>x. x = u) (map fst (filter P xs)) = []"
      using Cons.prems(1) True by (auto simp: filter_empty_conv image_iff)
    with True Cons.prems(3) show ?thesis by simp
  next
    case False
    with Cons.prems have "(u, p) \<in> set xs" "fst a \<noteq> u"
      by (auto simp: image_iff)
    with Cons show ?thesis by simp
  qed
qed

text \<open>One call draws at most one identifier, the next of the source, and publishes it
  in the message, if it publishes one.\<close>

lemma process_ids_fresh:
  assumes "process_user_recording cfg ctx user_id file_path consent_data channel_id s = (r, s1)"
    and "inj (uuid_src s)" and "ids_fresh s"
  shows "ids_fresh s1 \<and> uuid_src s1 = uuid_src s"
proof -
  have mono: "list_all (\<lambda>m. seg_id (snd m) \<in> uuid_src s ` {..< Suc (uuid_reads s)}) (published s)"
    using assms(3) by (auto simp: ids_fresh_def list_all_iff)
  have new: "uuid_src s (uuid_reads s) \<notin> (\<lambda>m. seg_id (snd m)) ` set (published s)"
  proof
    assume "uuid_src s (uuid_reads s) \<in> (\<lambda>m. seg_id (snd m)) ` set (published s)"
    then obtain k where "k < uuid_reads s" "uuid_src s (uuid_reads s) = uuid_src s k"
      using assms(3) by (auto simp: ids_fresh_def list_all_iff)
    with assms(2) show False by (auto dest: injD)
  qed
  show ?thesis
  proof (cases "granted consent_data user_id")
    case False
    with assms show ?thesis
      by (auto simp: process_not_granted unlink_def ids_fresh_def)
  next
    case True
    show ?thesis
    proof (cases "resolves ctx user_id")
      case False
      with True assms show ?thesis by (auto simp: process_unresolved)
    next
      case res: True
      show ?thesis
      proof (cases "files s file_path")
        case None
        with True res assms(1) mono assms(3) show ?thesis
          by (auto simp: process_missing_file ids_fresh_def)
      next
        case (Some data)
        from res obtain mem where m: "ctx_members ctx user_id = Some mem" "\<not> is_bot mem"
          by (auto simp: resolves_def split: option.splits)
        from process_moved [OF True m Some, of cfg channel_id] assms(1) mono new assms(3)
        show ?thesis by (auto simp: Let_def ids_fresh_def)
      qed
    qed
  qed
qed

lemma run_tasks_ids_fresh:
  "run_tasks cfg ctx consent_data channel_id outs s = (rs, s') \<Longrightarrow>
   inj (uuid_src s) \<Longrightarrow> ids_fresh s \<Longrightarrow> ids_fresh s' \<and> uuid_src s' = uuid_src s"
proof (induction outs arbitrary: s rs s')
  case Nil
  then show ?case by simp
next
  case (Cons a outs)
  obtain user_id file_path where a: "a = (user_id, file_path)" by (cases a)
  obtain r s1 where p: "process_user_recording cfg ctx user_id file_path consent_data channel_id s = (r, s1)"
    by (cases "process_user_recording cfg ctx user_id file_path consent_data channel_id s")
  obtain rs2 s2 where t: "run_tasks cfg ctx consent_data channel_id outs s1 = (rs2, s2)"
    by (cases "run_tasks cfg ctx consent_data channel_id outs s1")
  from Cons.prems a p t have s': "s' = s2" by simp
  from process_ids_fresh [OF p Cons.prems(2,3)] have 1: "ids_fresh s1" "uuid_src s1 = uuid_src s"
    by simp_all
  from Cons.IH [OF t] 1 Cons.prems(2) s' show ?case by simp
qed

lemma inj_world0_uuid: "inj (\<lambda>n. ''uuid'' @ str_nat n)"
  by (rule injI) (metis digits_val_str_nat same_append_eq)

text \<open>
  C2, as stated: every artifact of a participant with \<open>granted=true\<close> is relocated and
  published. It is not when \<open>ctx.guild.get_member\<close> does not find the participant:
  alice has granted consent, but with a member cache that does not hold her,
  \<open>process_user_recording\<close> returns no path and leaves the state as it is; after the
  flush of the stop command nothing is published and her artifact is where it was.
\<close>

theorem consented_unresolved_counterexample:
  "load world_R (str_int 42) = Some True \<and> ctx_members ctx_in_voice 42 = None \<and>
   get (ctx_guild_id ctx_in_voice) world_R = Some vs_R \<and>
   (42, [''audio'', ''42.wav'']) \<in> set (rec_output vs_R) \<and>
   files world_R [''audio'', ''42.wav''] = Some ''A'' \<and>
   process_user_recording cfg0 ctx_in_voice 42 [''audio'', ''42.wav''] (load world_R) 10 world_R =
     (Inr None, world_R) \<and>
   published (stop_recording cfg0 ctx_in_voice world_R) = published world_R \<and>
   files (stop_recording cfg0 ctx_in_voice world_R) [''audio'', ''42.wav''] = Some ''A''"
proof -
  have k: "str_int 42 = ''42''" by code_simp
  have l: "load world_R (str_int 42) = Some True"
    by (simp add: load_def world_R_def consent_R_def k)
  have c: "ctx_members ctx_in_voice 42 = None" by (simp add: ctx_in_voice_def)
  have g: "get (ctx_guild_id ctx_in_voice) world_R = Some vs_R"
    by (simp add: get_def ctx_in_voice_def world_R_def)
  have f: "files world_R [''audio'', ''42.wav''] = Some ''A''" by (simp add: world_R_def)
  have gr: "granted (load world_R) 42" using l by (simp add: granted_iff)
  have nr: "\<not> resolves ctx_in_voice u" for u by (simp add: resolves_def ctx_in_voice_def)
  have p: "process_user_recording cfg0 ctx_in_voice 42 [''audio'', ''42.wav''] (load world_R) 10 world_R =
     (Inr None, world_R)"
    using gr nr by (rule process_unresolved)
  from stop_recording_flush [OF g, of cfg0] obtain s1 rs s2 where
    s1: "files s1 = files world_R" "published s1 = published world_R" and
    t: "run_tasks cfg0 ctx_in_voice (load world_R) (vs_channel_id vs_R) (rec_output vs_R) s1 = (rs, s2)" and
    hs: "files (stop_recording cfg0 ctx_in_voice world_R) = files s2"
      "published (stop_recording cfg0 ctx_in_voice world_R) = published s2"
    by blast
  from run_tasks_published [OF t] obtain new where
    new: "published s2 = published s1 @ new" "\<forall>m \<in> set new. resolves ctx_in_voice (seg_userId (snd m))"
    by blast
  from new(2) nr have "new = []" by (cases new) auto
  with new(1) hs(2) s1(2) have pub: "published (stop_recording cfg0 ctx_in_voice world_R) = published world_R"
    by simp
  have "\<not> (\<exists>u. (u, [''audio'', ''42.wav'']) \<in> set (rec_output vs_R) \<and>
               (granted (load world_R) u \<longrightarrow> resolves ctx_in_voice u))"
    using gr nr by (auto simp: vs_R_def)
  with run_tasks_files_short [OF t, of "[''audio'', ''42.wav'']"] hs(1) s1(1) f
  have fl: "files (stop_recording cfg0 ctx_in_voice world_R) [''audio'', ''42.wav''] = Some ''A''"
    by simp
  show ?thesis using l c g f p pub fl by (simp add: vs_R_def)
qed

text \<open>
  C2, amended: an artifact of a participant who has \<open>granted=true\<close> in the consent
  record, whom \<open>ctx.guild.get_member\<close> finds as a member that is no bot, and whose file
  exists. \<open>process_user_recording\<close> moves the file (it leaves the old path) to
  \<open>audio/<sanitised name>/<time stamp>/<id>-<time stamp>.wav\<close>, where the time stamp is
  the UTC minute at which the call runs and the id is the next value of \<open>uuid4\<close>, and
  publishes exactly one message on the audio queue with that id, the new path, the user
  id, the user name, the channel id and the guild id. In the flush of the rotation task
  and in the flush of the stop command, with the artifacts of the recorder at paths of
  their own, exactly one of the messages published carries the participant's id and the
  artifact has left its path. As long as \<open>uuid4\<close> returns no value twice, a flush keeps
  the identifiers of all published messages pairwise different.
\<close>

theorem consented_recording_moved_and_published:
  "(consent_data (str_int user_id) = Some True \<and> ctx_members ctx user_id = Some mem \<and>
    \<not> is_bot mem \<and> files s0 file_path = Some data \<longrightarrow>
      (let timestamp = strftime (clock_src s0 (clock_reads s0));
           identifier = uuid_src s0 (uuid_reads s0);
           dest_path = dest_of (username mem) timestamp identifier
       in process_user_recording cfg ctx user_id file_path consent_data channel_id s0 =
            (Inr (Some dest_path),
             s0\<lparr>clock_reads := Suc (clock_reads s0), uuid_reads := Suc (uuid_reads s0),
                files := ((files s0)(file_path := None))(dest_path \<mapsto> data),
                published := published s0 @
                  [(AudioQueue cfg,
                    \<lparr>seg_id = identifier, seg_path = path_str dest_path, seg_userId = user_id,
                     seg_user = username mem, seg_channelId = channel_id,
                     seg_guildId = ctx_guild_id ctx\<rparr>)]\<rparr>) \<and>
          butlast dest_path = path_div AUDIOS_DIR (safe_name (username mem)) @ [timestamp] \<and>
          (CHR ''.'' \<notin> set identifier \<longrightarrow>
             last dest_path = identifier @ ''-'' @ timestamp @ ''.wav''))) \<and>
   (get (ctx_guild_id ctx) s = Some vs \<and> separate_artifacts (rec_output vs) \<and>
    (user_id, file_path) \<in> set (rec_output vs) \<and> load s (str_int user_id) = Some True \<and>
    resolves ctx user_id \<and> files s file_path \<noteq> None \<and>
    (h = scheduled_transcription_task cfg ctx s \<or> h = stop_recording cfg ctx s) \<longrightarrow>
      (\<exists>new. published h = published s @ new \<and>
             length (filter (\<lambda>m. seg_userId (snd m) = user_id) new) = 1) \<and>
      files h file_path = None) \<and>
   (get (ctx_guild_id ctx) s = Some vs \<and> inj (uuid_src s) \<and> ids_fresh s \<and>
    (h = scheduled_transcription_task cfg ctx s \<or> h = stop_recording cfg ctx s) \<longrightarrow>
      ids_fresh h)"
proof (intro conjI)
  show "consent_data (str_int user_id) = Some True \<and> ctx_members ctx user_id = Some mem \<and>
    \<not> is_bot mem \<and> files s0 file_path = Some data \<longrightarrow>
      (let timestamp = strftime (clock_src s0 (clock_reads s0));
           identifier = uuid_src s0 (uuid_reads s0);
           dest_path = dest_of (username mem) timestamp identifier
       in process_user_recording cfg ctx user_id file_path consent_data channel_id s0 =
            (Inr (Some dest_path),
             s0\<lparr>clock_reads := Suc (clock_reads s0), uuid_reads := Suc (uuid_reads s0),
                files := ((files s0)(file_path := None))(dest_path \<mapsto> data),
                published := published s0 @
                  [(AudioQueue cfg,
                    \<lparr>seg_id = identifier, seg_path = path_str dest_path, seg_userId = user_id,
                     seg_user = username mem, seg_channelId = channel_id,
                     seg_guildId = ctx_guild_id ctx\<rparr>)]\<rparr>) \<and>
          butlast dest_path = path_div AUDIOS_DIR (safe_name (username mem)) @ [timestamp] \<and>
          (CHR ''.'' \<notin> set identifier \<longrightarrow>
             last dest_path = identifier @ ''-'' @ timestamp @ ''.wav''))"
  proof (intro impI, elim conjE)
    assume a: "consent_data (str_int user_id) = Some True" "ctx_members ctx user_id = Some mem"
      "\<not> is_bot mem" "files s0 file_path = Some data"
    have gr: "granted consent_data user_id" using a(1) by (simp add: granted_iff)
    from process_moved [OF gr a(2,3,4), of cfg channel_id]
    show "let timestamp = strftime (clock_src s0 (clock_reads s0));
           identifier = uuid_src s0 (uuid_reads s0);
           dest_path = dest_of (username mem) timestamp identifier
       in process_user_recording cfg ctx user_id file_path consent_data channel_id s0 =
            (Inr (Some dest_path),
             s0\<lparr>clock_reads := Suc (clock_reads s0), uuid_reads := Suc (uuid_reads s0),
                files := ((files s0)(file_path := None))(dest_path \<mapsto> data),
                published := published s0 @
                  [(AudioQueue cfg,
                    \<lparr>seg_id = identifier, seg_path = path_str dest_path, seg_userId = user_id,
                     seg_user = username mem, seg_channelId = channel_id,
                     seg_guildId = ctx_guild_id ctx\<rparr>)]\<rparr>) \<and>
          butlast dest_path = path_div AUDIOS_DIR (safe_name (username mem)) @ [timestamp] \<and>
          (CHR ''.'' \<notin> set identifier \<longrightarrow>
             last dest_path = identifier @ ''-'' @ timestamp @ ''.wav'')"
      by (simp add: Let_def butlast_dest_of user_dir_of_alt last_dest_of)
  qed
next
  show "get (ctx_guild_id ctx) s = Some vs \<and> separate_artifacts (rec_output vs) \<and>
    (user_id, file_path) \<in> set (rec_output vs) \<and> load s (str_int user_id) = Some True \<and>
    resolves ctx user_id \<and> files s file_path \<noteq> None \<and>
    (h = scheduled_transcription_task cfg ctx s \<or> h = stop_recording cfg ctx s) \<longrightarrow>
      (\<exists>new. published h = published s @ new \<and>
             length (filter (\<lambda>m. seg_userId (snd m) = user_id) new) = 1) \<and>
      files h file_path = None"
  proof (intro impI, elim conjE)
    assume g: "get (ctx_guild_id ctx) s = Some vs" and sep: "separate_artifacts (rec_output vs)"
      and m: "(user_id, file_path) \<in> set (rec_output vs)"
      and l: "load s (str_int user_id) = Some True" and res: "resolves ctx user_id"
      and f: "files s file_path \<noteq> None"
      and h: "h = scheduled_transcription_task cfg ctx s \<or> h = stop_recording cfg ctx s"
    from handler_flush [OF g h] obtain s1 rs s2 where
      s1: "files s1 = files s" "published s1 = published s" and
      t: "run_tasks cfg ctx (load s) (vs_channel_id vs) (rec_output vs) s1 = (rs, s2)" and
      hs: "files h = files s2" "published h = published s2"
      by blast
    have gr: "granted (load s) user_id" using l by (simp add: granted_iff)
    have d: "distinct (map fst (rec_output vs))" "distinct (map snd (rec_output vs))"
      and sh: "list_all (\<lambda>(u, p). length p \<le> 2) (rec_output vs)"
      using sep by (simp_all add: separate_artifacts_def)
    have len: "length file_path \<le> 2" using sh m by (auto simp: list_all_iff)
    let ?P = "\<lambda>(u, p). granted (load s) u \<and> resolves ctx u \<and> files s1 p \<noteq> None"
    from run_tasks_published_users [OF t d(2) sh] obtain new where
      new: "published s2 = published s1 @ new"
        "map (\<lambda>m. seg_userId (snd m)) new = map fst (filter ?P (rec_output vs))"
      by blast
    have "?P (user_id, file_path)" using gr res f s1(1) by simp
    from count_fst_filter [OF d(1) m, of ?P, OF this] new(2)
    have "length (filter (\<lambda>x. x = user_id) (map (\<lambda>m. seg_userId (snd m)) new)) = 1"
      by simp
    then have one: "length (filter (\<lambda>m. seg_userId (snd m) = user_id) new) = 1"
      by (simp add: filter_map comp_def)
    have gone: "files h file_path = None"
      using run_tasks_files_short [OF t len] m gr res hs(1) by auto
    from one gone new(1) hs(2) s1(2)
    show "(\<exists>new. published h = published s @ new \<and>
             length (filter (\<lambda>m. seg_userId (snd m) = user_id) new) = 1) \<and>
      files h file_path = None" by auto
  qed
next
  show "get (ctx_guild_id ctx) s = Some vs \<and> inj (uuid_src s) \<and> ids_fresh s \<and>
    (h = scheduled_transcription_task cfg ctx s \<or> h = stop_recording cfg ctx s) \<longrightarrow>
      ids_fresh h"
  proof (intro impI, elim conjE)
    assume g: "get (ctx_guild_id ctx) s = Some vs" and i: "inj (uuid_src s)" and fr: "ids_fresh s"
      and h: "h = scheduled_transcription_task cfg ctx s \<or> h = stop_recording cfg ctx s"
    from handler_flush [OF g h] obtain s1 rs s2 where
      s1: "published s1 = published s" "uuid_src s1 = uuid_src s" "uuid_reads s1 = uuid_reads s" and
      t: "run_tasks cfg ctx (load s) (vs_channel_id vs) (rec_output vs) s1 = (rs, s2)" and
      hs: "published h = published s2" "uuid_src h = uuid_src s2" "uuid_reads h = uuid_reads s2"
      by blast
    have "inj (uuid_src s1)" "ids_fresh s1" using i fr s1 by (simp_all add: ids_fresh_def)
    from run_tasks_ids_fresh [OF t this] have "ids_fresh s2" by simp
    with hs show "ids_fresh h" by (simp add: ids_fresh_def)
  qed
qed

theorem consented_recording_moved_and_published_witness:
  "consent_R (str_int 42) = Some True \<and> ctx_members ctx_R 42 = Some alice \<and> \<not> is_bot alice \<and>
   files world_R [''audio'', ''42.wav''] = Some ''A'' \<and>
   process_user_recording cfg0 ctx_R 42 [''audio'', ''42.wav''] consent_R 10 world_R =
     (Inr (Some [''audio'', ''alice'', ''2024-03-09-14-05'', ''uuid0-2024-03-09-14-05.wav'']),
      world_R\<lparr>clock_reads := 1, uuid_reads := 1,
        files := ((files world_R)([''audio'', ''42.wav''] := None))
          ([''audio'', ''alice'', ''2024-03-09-14-05'', ''uuid0-2024-03-09-14-05.wav''] \<mapsto> ''A''),
        published :=
          [(''audio'',
            \<lparr>seg_id = ''uuid0'',
             seg_path = ''audio/alice/2024-03-09-14-05/uuid0-2024-03-09-14-05.wav'',
             seg_userId = 42, seg_user = ''alice'', seg_channelId = 10, seg_guildId = 1\<rparr>)]\<rparr>) \<and>
   get (ctx_guild_id ctx_R) world_R = Some vs_R \<and> separate_artifacts (rec_output vs_R) \<and>
   (42, [''audio'', ''42.wav'']) \<in> set (rec_output vs_R) \<and>
   load world_R (str_int 42) = Some True \<and> resolves ctx_R 42 \<and>
   (\<exists>new. published (stop_recording cfg0 ctx_R world_R) = published world_R @ new \<and>
          length (filter (\<lambda>m. seg_userId (snd m) = 42) new) = 1) \<and>
   files (stop_recording cfg0 ctx_R world_R) [''audio'', ''42.wav''] = None \<and>
   inj (uuid_src world_R) \<and> ids_fresh world_R \<and>
   ids_fresh (stop_recording cfg0 ctx_R world_R)"
proof -
  have k: "str_int 42 = ''42''" by code_simp
  have c: "consent_R (str_int 42) = Some True" by (simp add: k consent_R_def)
  have m: "ctx_members ctx_R 42 = Some alice" "\<not> is_bot alice"
    by (simp_all add: ctx_R_def alice_def)
  have f: "files world_R [''audio'', ''42.wav''] = Some ''A''" by (simp add: world_R_def)
  have g: "get (ctx_guild_id ctx_R) world_R = Some vs_R"
    by (simp add: get_def ctx_R_def world_R_def)
  have sep: "separate_artifacts (rec_output vs_R)"
    by (simp add: separate_artifacts_def vs_R_def)
  have mem: "(42, [''audio'', ''42.wav'']) \<in> set (rec_output vs_R)" by (simp add: vs_R_def)
  have l: "load world_R (str_int 42) = Some True" by (simp add: load_def world_R_def c)
  have res: "resolves ctx_R 42" using m by (simp add: resolves_def)
  have i: "inj (uuid_src world_R)" using inj_world0_uuid by (simp add: world_R_def world0_def)
  have fr: "ids_fresh world_R" by (simp add: ids_fresh_def world_R_def world0_def)
  have ts: "strftime (clock_src world_R 0) = ''2024-03-09-14-05''"
    unfolding world_R_def world0_def by simp code_simp
  have u: "uuid_src world_R 0 = ''uuid0''"
    unfolding world_R_def world0_def by simp code_simp
  have d: "dest_of ''alice'' ''2024-03-09-14-05'' ''uuid0'' =
      [''audio'', ''alice'', ''2024-03-09-14-05'', ''uuid0-2024-03-09-14-05.wav'']"
    by code_simp
  have ps: "path_str [''audio'', ''alice'', ''2024-03-09-14-05'', ''uuid0-2024-03-09-14-05.wav''] =
      ''audio/alice/2024-03-09-14-05/uuid0-2024-03-09-14-05.wav''"
    by simp
  have w: "clock_reads world_R = 0" "uuid_reads world_R = 0" "published world_R = []"
    "username alice = ''alice''" "AudioQueue cfg0 = ''audio''" "ctx_guild_id ctx_R = 1"
    by (simp_all add: world_R_def world0_def alice_def cfg0_def ctx_R_def)
  have step: "process_user_recording cfg0 ctx_R 42 [''audio'', ''42.wav''] consent_R 10 world_R =
     (Inr (Some [''audio'', ''alice'', ''2024-03-09-14-05'', ''uuid0-2024-03-09-14-05.wav'']),
      world_R\<lparr>clock_reads := 1, uuid_reads := 1,
        files := ((files world_R)([''audio'', ''42.wav''] := None))
          ([''audio'', ''alice'', ''2024-03-09-14-05'', ''uuid0-2024-03-09-14-05.wav''] \<mapsto> ''A''),
        published :=
          [(''audio'',
            \<lparr>seg_id = ''uuid0'',
             seg_path = ''audio/alice/2024-03-09-14-05/uuid0-2024-03-09-14-05.wav'',
             seg_userId = 42, seg_user = ''alice'', seg_channelId = 10, seg_guildId = 1\<rparr>)]\<rparr>)"
    using consented_recording_moved_and_published [of consent_R 42 ctx_R alice world_R
        "[''audio'', ''42.wav'']" "''A''" cfg0 10] c m f
    by (simp add: Let_def ts u d ps w)
  show ?thesis
    using consented_recording_moved_and_published [of consent_R 42 ctx_R alice world_R
        "[''audio'', ''42.wav'']" "''A''" cfg0 10 world_R vs_R "stop_recording cfg0 ctx_R world_R"]
      step c m f g sep mem l res i fr
    by simp
qed

section \<open>Leaving the voice channel\<close>

lemma str_int_scenario:
  "str_int 42 = ''42''" "str_int 43 = ''43''" "str_int 44 = ''44''" "str_int 50 = ''50''"
  by code_simp+

lemma remaining_empty_iff:
  "(remaining consent_data event = []) =
   (\<not> (\<exists>m \<in> set (vc_members (ev_channel event)).
          \<not> is_bot m \<and> consent_data (str_int (member_id m)) \<noteq> None \<and>
          member_id m \<noteq> member_id (ev_author event)))"
  by (simp add: remaining_def filter_empty_conv)

lemma leave_stops:
  assumes "\<not> is_bot (ev_author event)" "member_id (ev_author event) \<noteq> bot_user_id s"
    "get (vc_guild_id (ev_channel event)) s = Some vs" "vc_id (ev_channel event) = vs_channel_id vs"
    "remaining (load s) event = []"
  shows "on_voice_user_leave event s =
     s\<lparr>task_running := False,
       voice_log := voice_log s @ [(vs_channel_id vs, Disconnect)],
       active_recordings := (active_recordings s)(vc_guild_id (ev_channel event) := None),
       notices := notices s @ [ChannelSend (vc_id (ev_channel event)) AllLeft]\<rparr>"
  using assms by (simp add: on_voice_user_leave_def voice_def remove_def send_def Let_def)

lemma leave_keeps:
  assumes "\<not> is_bot (ev_author event)" "member_id (ev_author event) \<noteq> bot_user_id s"
    "get (vc_guild_id (ev_channel event)) s = Some vs" "vc_id (ev_channel event) = vs_channel_id vs"
    "remaining (load s) event \<noteq> []"
  shows "on_voice_user_leave event s = s"
  using assms by (simp add: on_voice_user_leave_def)

text \<open>
  C4, as stated: the session stops exactly when no non-bot participant who has consented
  or is undecided remains. It is not so in either direction. When alice leaves and
  carol, who has not decided, stays with a bot, the session is stopped and the departure
  notice is sent. When alice leaves and bob, who has denied consent, stays with a bot, no
  consenting or undecided participant remains, and the session keeps running.
\<close>

theorem leave_undecided_counterexample:
  "get 1 world_R = Some vs_R \<and> ev_author leave_carol_stays = alice \<and>
   vc_members (ev_channel leave_carol_stays) = [carol, music_bot] \<and>
   \<not> is_bot carol \<and> load world_R (str_int (member_id carol)) = None \<and>
   get 1 (on_voice_user_leave leave_carol_stays world_R) = None \<and>
   notices (on_voice_user_leave leave_carol_stays world_R) = [ChannelSend 10 AllLeft] \<and>
   ev_author leave_bob_stays = alice \<and>
   vc_members (ev_channel leave_bob_stays) = [bob, music_bot] \<and>
   load world_R (str_int (member_id bob)) = Some False \<and> is_bot music_bot \<and>
   on_voice_user_leave leave_bob_stays world_R = world_R"
  by (auto simp: on_voice_user_leave_def remaining_def get_def load_def voice_def remove_def
      send_def Let_def world_R_def world0_def leave_carol_stays_def leave_bob_stays_def vs_R_def
      alice_def bob_def carol_def music_bot_def consent_R_def str_int_scenario)

text \<open>
  C4, amended: on a voice-leave event of a user that is no bot, in the voice channel of
  the guild's registered session, the session is stopped (rotation task cancelled, voice
  state disconnected, entry removed from the registry) and the departure notice is sent
  exactly when the channel holds no other member that is no bot and has a consent
  decision on record, granted or denied; a member without a decision does not keep the
  session alive. Otherwise, and also when a bot leaves, when the guild has no session or
  when the event is for another channel, nothing changes.
\<close>

theorem leave_stops_without_decided_member:
  "(\<not> is_bot (ev_author event) \<and> member_id (ev_author event) \<noteq> bot_user_id s \<and>
    get (vc_guild_id (ev_channel event)) s = Some vs \<and>
    vc_id (ev_channel event) = vs_channel_id vs \<longrightarrow>
      (if \<exists>m \<in> set (vc_members (ev_channel event)).
            \<not> is_bot m \<and> load s (str_int (member_id m)) \<noteq> None \<and>
            member_id m \<noteq> member_id (ev_author event)
       then on_voice_user_leave event s = s
       else on_voice_user_leave event s =
              s\<lparr>task_running := False,
                voice_log := voice_log s @ [(vs_channel_id vs, Disconnect)],
                active_recordings := (active_recordings s)(vc_guild_id (ev_channel event) := None),
                notices := notices s @ [ChannelSend (vc_id (ev_channel event)) AllLeft]\<rparr>)) \<and>
   (is_bot (ev_author event) \<or> member_id (ev_author event) = bot_user_id s \<or>
    get (vc_guild_id (ev_channel event)) s = None \<or>
    (get (vc_guild_id (ev_channel event)) s = Some vs \<and>
     vc_id (ev_channel event) \<noteq> vs_channel_id vs) \<longrightarrow>
      on_voice_user_leave event s = s)"
proof (rule conjI)
  show "\<not> is_bot (ev_author event) \<and> member_id (ev_author event) \<noteq> bot_user_id s \<and>
    get (vc_guild_id (ev_channel event)) s = Some vs \<and>
    vc_id (ev_channel event) = vs_channel_id vs \<longrightarrow>
      (if \<exists>m \<in> set (vc_members (ev_channel event)).
            \<not> is_bot m \<and> load s (str_int (member_id m)) \<noteq> None \<and>
            member_id m \<noteq> member_id (ev_author event)
       then on_voice_user_leave event s = s
       else on_voice_user_leave event s =
              s\<lparr>task_running := False,
                voice_log := voice_log s @ [(vs_channel_id vs, Disconnect)],
                active_recordings := (active_recordings s)(vc_guild_id (ev_channel event) := None),
                notices := notices s @ [ChannelSend (vc_id (ev_channel event)) AllLeft]\<rparr>)"
    using leave_stops [of event s vs] leave_keeps [of event s vs]
      remaining_empty_iff [of "load s" event]
    by auto
next
  show "is_bot (ev_author event) \<or> member_id (ev_author event) = bot_user_id s \<or>
    get (vc_guild_id (ev_channel event)) s = None \<or>
    (get (vc_guild_id (ev_channel event)) s = Some vs \<and>
     vc_id (ev_channel event) \<noteq> vs_channel_id vs) \<longrightarrow>
      on_voice_user_leave event s = s"
    by (auto simp: on_voice_user_leave_def)
qed

theorem leave_stops_without_decided_member_witness:
  "\<not> is_bot (ev_author leave_carol_stays) \<and>
   member_id (ev_author leave_carol_stays) \<noteq> bot_user_id world_R \<and>
   get (vc_guild_id (ev_channel leave_carol_stays)) world_R = Some vs_R \<and>
   vc_id (ev_channel leave_carol_stays) = vs_channel_id vs_R \<and>
   on_voice_user_leave leave_carol_stays world_R =
     world_R\<lparr>task_running := False, voice_log := [(10, Disconnect)],
       active_recordings := Map.empty, notices := [ChannelSend 10 AllLeft]\<rparr> \<and>
   \<not> is_bot (ev_author leave_bob_stays) \<and>
   member_id (ev_author leave_bob_stays) \<noteq> bot_user_id world_R \<and>
   get (vc_guild_id (ev_channel leave_bob_stays)) world_R = Some vs_R \<and>
   vc_id (ev_channel leave_bob_stays) = vs_channel_id vs_R \<and>
   on_voice_user_leave leave_bob_stays world_R = world_R \<and>
   is_bot (ev_author (leave_bob_stays\<lparr>ev_author := music_bot\<rparr>)) \<and>
   on_voice_user_leave (leave_bob_stays\<lparr>ev_author := music_bot\<rparr>) world_R = world_R"
proof -
  have a: "\<not> is_bot (ev_author leave_carol_stays) \<and>
     member_id (ev_author leave_carol_stays) \<noteq> bot_user_id world_R \<and>
     get (vc_guild_id (ev_channel leave_carol_stays)) world_R = Some vs_R \<and>
     vc_id (ev_channel leave_carol_stays) = vs_channel_id vs_R"
    by (simp add: leave_carol_stays_def alice_def world_R_def world0_def get_def vs_R_def)
  have b: "\<not> is_bot (ev_author leave_bob_stays) \<and>
     member_id (ev_author leave_bob_stays) \<noteq> bot_user_id world_R \<and>
     get (vc_guild_id (ev_channel leave_bob_stays)) world_R = Some vs_R \<and>
     vc_id (ev_channel leave_bob_stays) = vs_channel_id vs_R"
    by (simp add: leave_bob_stays_def alice_def world_R_def world0_def get_def vs_R_def)
  have c: "\<not> (\<exists>m \<in> set (vc_members (ev_channel leave_carol_stays)).
            \<not> is_bot m \<and> load world_R (str_int (member_id m)) \<noteq> None \<and>
            member_id m \<noteq> member_id (ev_author leave_carol_stays))"
    by (simp add: leave_carol_stays_def carol_def music_bot_def load_def world_R_def
        consent_R_def str_int_scenario)
  have d: "\<exists>m \<in> set (vc_members (ev_channel leave_bob_stays)).
            \<not> is_bot m \<and> load world_R (str_int (member_id m)) \<noteq> None \<and>
            member_id m \<noteq> member_id (ev_author leave_bob_stays)"
    by (auto simp: leave_bob_stays_def bob_def alice_def load_def world_R_def
        consent_R_def str_int_scenario)
  have e: "is_bot (ev_author (leave_bob_stays\<lparr>ev_author := music_bot\<rparr>))"
    by (simp add: music_bot_def)
  have v: "voice_log world_R = []" "notices world_R = []" "vs_channel_id vs_R = 10"
    "active_recordings world_R = [1 \<mapsto> vs_R]" "vc_guild_id (ev_channel leave_carol_stays) = 1"
    "vc_id (ev_channel leave_carol_stays) = 10"
    by (simp_all add: world_R_def world0_def vs_R_def leave_carol_stays_def)
  show ?thesis
    using leave_stops_without_decided_member [of leave_carol_stays world_R vs_R]
      leave_stops_without_decided_member [of leave_bob_stays world_R vs_R]
      leave_stops_without_decided_member [of "leave_bob_stays\<lparr>ev_author := music_bot\<rparr>" world_R vs_R]
      a b c d e
    by (simp add: v)
qed

section \<open>The two ways a session ends\<close>









end
